theory Spec2Isabelle
  imports Complex_Main "HOL-Library.Word"
begin

section \<open>Errors raised by the program\<close>

text \<open>
  The Python exceptions that the modelled code can raise. A raise is a value of the
  model: stateful operations return an outcome together with the state as it is at the
  moment of the raise (Python keeps every mutation made before an exception).
\<close>

datatype error =
    ValueError string
  | ZeroDivisionError
  | StructError
  | QueueEmpty

datatype 'a outcome = Done 'a | Raise error

section \<open>Python floats\<close>

text \<open>
  A Python \<^verbatim>\<open>float\<close> is an IEEE 754 binary64 number, and every float operation, the
  true division \<^verbatim>\<open>/\<close> of two integers included, returns the exact result rounded to the
  nearest float, a tie going to the float with the even significand. \<open>binary64 x\<close> is
  that rounding of the real number \<open>x\<close>: the exponent \<open>e\<close> puts \<open>x / 2^e\<close> between
  \<open>2^52\<close> and \<open>2^53\<close> in magnitude, where the floats are the integers. The exponent is
  not bounded here: the overflow to infinity above \<open>2^1024\<close> (an \<^verbatim>\<open>OverflowError\<close> for an
  integer division) and the subnormal numbers below \<open>2^-1022\<close> are not modelled.
  \<open>in_range x\<close> says that the exact result \<open>x\<close> of an operation is zero or of a
  magnitude from \<open>2^-1022\<close> to \<open>2^1023\<close>, where \<open>binary64 x\<close> is the float that Python
  returns; every statement below that depends on a float keeps it in that range.
  A MicroPython build with single-precision floats rounds to 24 bits instead of 53.
\<close>

definition round_half_even :: "real \<Rightarrow> int" where
  "round_half_even y =
     (let f = \<lfloor>y\<rfloor>; d = y - of_int f
      in if d < 1 / 2 then f else if 1 / 2 < d then f + 1 else if even f then f else f + 1)"

definition binary64 :: "real \<Rightarrow> real" where
  "binary64 x =
     (if x = 0 then 0
      else let e = \<lfloor>Transcendental.log 2 \<bar>x\<bar>\<rfloor> - 52
           in of_int (round_half_even (x / 2 powr of_int e)) * 2 powr of_int e)"

definition in_range :: "real \<Rightarrow> bool" where
  "in_range x \<longleftrightarrow> x = 0 \<or> (1 / 2 ^ 1022 \<le> \<bar>x\<bar> \<and> \<bar>x\<bar> < 2 ^ 1023)"

section \<open>Odometer: \<^verbatim>\<open>encoder_romi.py\<close>\<close>

text \<open>
  Class \<^verbatim>\<open>Encoder\<close>. The hardware timer is outside the program: the value
  returned by \<^verbatim>\<open>self.tim.counter()\<close> is an argument of \<open>Encoder_update\<close>.
  Python integers are unbounded, so the integer fields are \<open>int\<close>. The two limits are
  produced by Python's true division \<^verbatim>\<open>/\<close> of an integer by 2: they are floats, the
  quotient rounded by \<open>binary64\<close>. The quotient is a float itself, and the limit exact,
  as long as \<open>auto_r + 1\<close> is at most \<open>2^53\<close> in magnitude; beyond that the limit is
  a rounded value. The comparisons of the integer \<open>delta\<close> with the float limits are
  exact.
  The timer channels \<^verbatim>\<open>ENC_CHA\<close>, \<^verbatim>\<open>ENC_CHB\<close> are configuration only and are left out.
\<close>

record encoder =
  idx :: int
  delta :: int
  count :: int
  old_count :: int
  auto_reload :: int
  limit :: real
  neg_limit :: real
  AR1 :: int
  position :: int

definition Encoder_init :: "int \<Rightarrow> encoder" where
  "Encoder_init auto_r =
     \<lparr> idx = 0,
       delta = 0,
       count = 0,
       old_count = 0,
       auto_reload = auto_r,
       limit = binary64 (of_int (auto_r + 1) / 2),
       neg_limit = binary64 (of_int (-1 * (auto_r + 1)) / 2),
       AR1 = auto_r + 1,
       position = 0 \<rparr>"

definition Encoder_update :: "int \<Rightarrow> encoder \<Rightarrow> encoder" where
  "Encoder_update counter e =
     (let e1 = e\<lparr>count := counter\<rparr>;
          e2 = e1\<lparr>delta := count e1 - old_count e1\<rparr>;
          e3 = (if of_int (delta e2) > limit e2 then e2\<lparr>delta := delta e2 - AR1 e2\<rparr>
                else if of_int (delta e2) < neg_limit e2 then e2\<lparr>delta := delta e2 + AR1 e2\<rparr>
                else e2);
          e4 = e3\<lparr>position := position e3 + delta e3\<rparr>
      in e4\<lparr>old_count := count e4\<rparr>)"

definition Encoder_get_position :: "encoder \<Rightarrow> int" where
  "Encoder_get_position e = position e"

definition Encoder_get_delta :: "encoder \<Rightarrow> int" where
  "Encoder_get_delta e = delta e"

definition Encoder_zero :: "encoder \<Rightarrow> encoder" where
  "Encoder_zero e = e\<lparr>position := 0, delta := 0, count := 0, old_count := 0\<rparr>"

text \<open>
  A run of the odometer: one \<open>Encoder_update\<close> per raw counter sample, in order.
  \<open>Encoder_trace\<close> lists the encoder as it is after each of the updates.
\<close>

fun Encoder_updates :: "encoder \<Rightarrow> int list \<Rightarrow> encoder" where
  "Encoder_updates e [] = e"
| "Encoder_updates e (c # cs) = Encoder_updates (Encoder_update c e) cs"

fun Encoder_trace :: "encoder \<Rightarrow> int list \<Rightarrow> encoder list" where
  "Encoder_trace e [] = []"
| "Encoder_trace e (c # cs) = Encoder_update c e # Encoder_trace (Encoder_update c e) cs"

text \<open>
  The wraparound correction in the words of the specification (section 4.1): a raw
  difference above \<open>+limit\<close> loses \<open>autoReloadPeriod + 1\<close>, one below \<open>-limit\<close> gains
  it, with \<open>limit = (autoReloadPeriod + 1) / 2\<close>. \<open>spec_deltas\<close> are the corrected
  differences of consecutive samples, the first one taken against \<open>prev\<close>.
\<close>

definition spec_limit :: "int \<Rightarrow> real" where
  "spec_limit ar = (of_int ar + 1) / 2"

definition spec_corrected :: "int \<Rightarrow> int \<Rightarrow> int" where
  "spec_corrected ar d =
     (if of_int d > spec_limit ar then d - (ar + 1)
      else if of_int d < - spec_limit ar then d + (ar + 1)
      else d)"

fun spec_deltas :: "int \<Rightarrow> int \<Rightarrow> int list \<Rightarrow> int list" where
  "spec_deltas ar prev [] = []"
| "spec_deltas ar prev (c # cs) = spec_corrected ar (c - prev) # spec_deltas ar c cs"

text \<open>
  The constants fixed by the constructor, with the two limits exact. \<open>Encoder_update\<close>
  and \<open>Encoder_zero\<close> never assign them, so they hold in every state reached from
  \<open>Encoder_init ar\<close> when \<open>ar + 1\<close> is at most \<open>2^53\<close> in magnitude.
\<close>

definition configured :: "int \<Rightarrow> encoder \<Rightarrow> bool" where
  "configured ar e \<longleftrightarrow>
     auto_reload e = ar \<and> limit e = of_int (ar + 1) / 2 \<and>
     neg_limit e = of_int (- (ar + 1)) / 2 \<and> AR1 e = ar + 1"

text \<open>
  The caller's view of an encoder object: any interleaving of \<^verbatim>\<open>update()\<close> (with the
  raw counter sample it reads) and \<^verbatim>\<open>zero()\<close>.
\<close>

datatype enc_call = Update int | Zero

fun Encoder_run :: "encoder \<Rightarrow> enc_call list \<Rightarrow> encoder" where
  "Encoder_run e [] = e"
| "Encoder_run e (Update c # ops) = Encoder_run (Encoder_update c e) ops"
| "Encoder_run e (Zero # ops) = Encoder_run (Encoder_zero e) ops"

fun sample_in_range :: "int \<Rightarrow> enc_call \<Rightarrow> bool" where
  "sample_in_range ar (Update c) = (0 \<le> c \<and> c \<le> ar)"
| "sample_in_range ar Zero = True"

text \<open>
  The bound on \<open>delta\<close> as the specification words it (section 3): the half-open
  interval from \<open>-autoReloadPeriod/2\<close> (excluded) to \<open>+autoReloadPeriod/2\<close> (included).
\<close>

definition spec_delta_interval :: "int \<Rightarrow> int \<Rightarrow> bool" where
  "spec_delta_interval ar d \<longleftrightarrow> - (of_int ar / 2) < (of_int d :: real) \<and> (of_int d :: real) \<le> of_int ar / 2"

section \<open>PID controller: \<^verbatim>\<open>ClosedLoop.py\<close>\<close>

text \<open>
  Class \<^verbatim>\<open>ClosedLoop\<close>, its fields prefixed with \<open>pid_\<close>. The constructor divides the
  period by 1000 with \<^verbatim>\<open>/\<close>, so the period is a float and so is everything computed from
  it; the gains, the reference and the measurement are taken as floats too (or integers
  that a float holds exactly), and each arithmetic operation of \<^verbatim>\<open>update\<close> rounds its
  exact result with \<open>binary64\<close>, in the order Python evaluates it. The attributes
  \<^verbatim>\<open>proportional\<close> and \<^verbatim>\<open>L\<close> do not exist before the first \<^verbatim>\<open>update\<close>; they are 0 here.
\<close>

record ClosedLoop =
  pid_Kp :: real
  pid_Ki :: real
  pid_meas :: real
  pid_ref :: real
  pid_error :: real
  pid_integral :: real
  pid_period :: real
  pid_proportional :: real
  pid_L :: real

definition ClosedLoop_init :: "real \<Rightarrow> real \<Rightarrow> real \<Rightarrow> real \<Rightarrow> real \<Rightarrow> ClosedLoop" where
  "ClosedLoop_init period Kp Ki ref meas =
     \<lparr> pid_Kp = Kp,
       pid_Ki = Ki,
       pid_meas = meas,
       pid_ref = ref,
       pid_error = 0,
       pid_integral = 0,
       pid_period = binary64 (period / 1000),
       pid_proportional = 0,
       pid_L = 0 \<rparr>"

definition ClosedLoop_set_Kp :: "real \<Rightarrow> ClosedLoop \<Rightarrow> ClosedLoop" where
  "ClosedLoop_set_Kp Kp c = c\<lparr>pid_Kp := Kp\<rparr>"

definition ClosedLoop_set_Ki :: "real \<Rightarrow> ClosedLoop \<Rightarrow> ClosedLoop" where
  "ClosedLoop_set_Ki Ki c = c\<lparr>pid_Ki := Ki\<rparr>"

definition ClosedLoop_setpoint :: "real \<Rightarrow> ClosedLoop \<Rightarrow> ClosedLoop" where
  "ClosedLoop_setpoint ref c = c\<lparr>pid_ref := ref\<rparr>"

definition ClosedLoop_update :: "ClosedLoop \<Rightarrow> real \<times> ClosedLoop" where
  "ClosedLoop_update c =
     (let c1 = c\<lparr>pid_error := binary64 (pid_ref c - pid_meas c)\<rparr>;
          c2 = c1\<lparr>pid_proportional := binary64 (pid_Kp c1 * pid_error c1)\<rparr>;
          c3 = c2\<lparr>pid_integral :=
                 binary64 (pid_integral c2 + binary64 (binary64 (pid_Ki c2 * pid_error c2) * pid_period c2))\<rparr>;
          c4 = c3\<lparr>pid_L := binary64 (pid_proportional c3 + pid_integral c3)\<rparr>
      in (pid_L c4, c4))"

text \<open>
  \<open>ClosedLoop_updates n\<close> is \<open>n\<close> successive calls of \<^verbatim>\<open>update()\<close>; \<open>ClosedLoop_run\<close> is
  any interleaving of \<^verbatim>\<open>update()\<close>, \<^verbatim>\<open>set_Kp\<close> and \<^verbatim>\<open>setpoint\<close> calls, which leave the
  integral gain as it is.
\<close>

fun ClosedLoop_updates :: "nat \<Rightarrow> ClosedLoop \<Rightarrow> ClosedLoop" where
  "ClosedLoop_updates 0 c = c"
| "ClosedLoop_updates (Suc n) c = ClosedLoop_updates n (snd (ClosedLoop_update c))"

datatype pid_call = Call_update | Call_set_Kp real | Call_setpoint real

fun ClosedLoop_run :: "ClosedLoop \<Rightarrow> pid_call list \<Rightarrow> ClosedLoop" where
  "ClosedLoop_run c [] = c"
| "ClosedLoop_run c (Call_update # calls) = ClosedLoop_run (snd (ClosedLoop_update c)) calls"
| "ClosedLoop_run c (Call_set_Kp Kp # calls) = ClosedLoop_run (ClosedLoop_set_Kp Kp c) calls"
| "ClosedLoop_run c (Call_setpoint ref # calls) = ClosedLoop_run (ClosedLoop_setpoint ref c) calls"

text \<open>
  \<open>update_in_range c\<close>: the exact result of each of the six operations of an
  \<^verbatim>\<open>update()\<close> made in state \<open>c\<close> is in the range of the float model.
  \<open>updates_in_range\<close> and \<open>run_in_range\<close> say so of every \<^verbatim>\<open>update()\<close> of a run.
\<close>

definition update_in_range :: "ClosedLoop \<Rightarrow> bool" where
  "update_in_range c \<longleftrightarrow>
     (let error = binary64 (pid_ref c - pid_meas c);
          proportional = binary64 (pid_Kp c * error);
          added = binary64 (binary64 (pid_Ki c * error) * pid_period c);
          integral = binary64 (pid_integral c + added)
      in in_range (pid_ref c - pid_meas c) \<and>
         in_range (pid_Kp c * error) \<and>
         in_range (pid_Ki c * error) \<and>
         in_range (binary64 (pid_Ki c * error) * pid_period c) \<and>
         in_range (pid_integral c + added) \<and>
         in_range (proportional + integral))"

fun updates_in_range :: "nat \<Rightarrow> ClosedLoop \<Rightarrow> bool" where
  "updates_in_range 0 c = True"
| "updates_in_range (Suc n) c =
     (update_in_range c \<and> updates_in_range n (snd (ClosedLoop_update c)))"

fun run_in_range :: "ClosedLoop \<Rightarrow> pid_call list \<Rightarrow> bool" where
  "run_in_range c [] = True"
| "run_in_range c (Call_update # calls) =
     (update_in_range c \<and> run_in_range (snd (ClosedLoop_update c)) calls)"
| "run_in_range c (Call_set_Kp Kp # calls) = run_in_range (ClosedLoop_set_Kp Kp c) calls"
| "run_in_range c (Call_setpoint ref # calls) = run_in_range (ClosedLoop_setpoint ref c) calls"

text \<open>
  What one \<^verbatim>\<open>update()\<close> adds to the integral: the float product
  \<^verbatim>\<open>self.Ki*self.error*self.period\<close>.
\<close>

definition increment :: "ClosedLoop \<Rightarrow> real" where
  "increment c = binary64 (binary64 (pid_Ki c * binary64 (pid_ref c - pid_meas c)) * pid_period c)"

text \<open>
  The product \<open>Ki*e*period*n\<close> of the specification (section 8), with the stored period:
  \<open>spec_integral\<close> in exact arithmetic, \<open>float_product\<close> as Python evaluates the
  expression, left to right in floats.
\<close>

definition spec_integral :: "ClosedLoop \<Rightarrow> nat \<Rightarrow> real" where
  "spec_integral c n = pid_Ki c * (pid_ref c - pid_meas c) * pid_period c * of_nat n"

definition float_product :: "ClosedLoop \<Rightarrow> nat \<Rightarrow> real" where
  "float_product c n =
     binary64 (binary64 (binary64 (pid_Ki c * binary64 (pid_ref c - pid_meas c)) * pid_period c)
               * of_nat n)"

section \<open>Collaborators of the drive loop\<close>

subsection \<open>Maneuver queues\<close>

text \<open>
  Modelled from the spec: the queue primitive (\<^verbatim>\<open>task_share.Queue\<close>) is a library that
  is not in the repository. Section 6 of the specification gives its contract: fixed
  capacity, FIFO, \<^verbatim>\<open>put\<close> either appends or signals full without blocking,
  \<^verbatim>\<open>get\<close> removes and returns the oldest element or signals empty, \<^verbatim>\<open>any\<close> and
  \<^verbatim>\<open>full\<close> are capacity queries. No caller in the program looks at what \<^verbatim>\<open>put\<close>
  signals, so \<open>Queue_put\<close> on a full queue returns the queue as it is; that the call
  was made is recorded in the call trace below.
\<close>

record queue =
  items :: "int list"
  capacity :: nat

definition Queue_init :: "nat \<Rightarrow> queue" where
  "Queue_init cap = \<lparr> items = [], capacity = cap \<rparr>"

definition Queue_any :: "queue \<Rightarrow> bool" where
  "Queue_any q \<longleftrightarrow> items q \<noteq> []"

definition Queue_full :: "queue \<Rightarrow> bool" where
  "Queue_full q \<longleftrightarrow> capacity q \<le> length (items q)"

definition Queue_put :: "int \<Rightarrow> queue \<Rightarrow> queue" where
  "Queue_put v q = (if Queue_full q then q else q\<lparr>items := items q @ [v]\<rparr>)"

definition Queue_get :: "queue \<Rightarrow> (int \<times> queue) option" where
  "Queue_get q = (case items q of [] \<Rightarrow> None | v # rest \<Rightarrow> Some (v, q\<lparr>items := rest\<rparr>))"

subsection \<open>Shared state and call trace\<close>

text \<open>
  The two module-level queues \<^verbatim>\<open>turn_q_r\<close> and \<^verbatim>\<open>turn_q_l\<close> of \<^verbatim>\<open>main.py\<close> are the
  only state shared by the tasks. \<open>trace\<close> is the list of calls a task has made on its
  collaborators, oldest first: console prints, queue puts and gets, duty commands to the
  motor driver, and the methods called on the encoder.
\<close>

datatype qname = Turn_q_r | Turn_q_l

datatype call =
    Print string
  | Print_int int
  | Put qname int
  | Get qname
  | Set_duty int
  | Enc_update
  | Enc_get_delta
  | Enc_zero
  | Enc_get_position

record world =
  turn_q_r :: queue
  turn_q_l :: queue
  trace :: "call list"

definition log :: "call \<Rightarrow> world \<Rightarrow> world" where
  "log c w = w\<lparr>trace := trace w @ [c]\<rparr>"

definition print :: "string \<Rightarrow> world \<Rightarrow> world" where
  "print msg w = log (Print msg) w"

definition turn_q_r_put :: "int \<Rightarrow> world \<Rightarrow> world" where
  "turn_q_r_put v w = log (Put Turn_q_r v) (w\<lparr>turn_q_r := Queue_put v (turn_q_r w)\<rparr>)"

definition turn_q_l_put :: "int \<Rightarrow> world \<Rightarrow> world" where
  "turn_q_l_put v w = log (Put Turn_q_l v) (w\<lparr>turn_q_l := Queue_put v (turn_q_l w)\<rparr>)"

fun is_put :: "call \<Rightarrow> bool" where
  "is_put (Put q v) = True"
| "is_put c = False"

fun is_print :: "call \<Rightarrow> bool" where
  "is_print (Print msg) = True"
| "is_print (Print_int n) = True"
| "is_print c = False"

fun is_set_duty :: "call \<Rightarrow> bool" where
  "is_set_duty (Set_duty d) = True"
| "is_set_duty c = False"

fun is_enc_call :: "call \<Rightarrow> bool" where
  "is_enc_call Enc_update = True"
| "is_enc_call Enc_get_delta = True"
| "is_enc_call Enc_zero = True"
| "is_enc_call Enc_get_position = True"
| "is_enc_call c = False"

section \<open>Motor driver: \<^verbatim>\<open>motor_romi.py\<close>\<close>

text \<open>
  Class \<^verbatim>\<open>L6206\<close>: the last commanded duty, the level of the direction pin
  \<^verbatim>\<open>IN2\<close> (\<open>True\<close> is high), the pulse width of the PWM channel in percent and the
  level of the enable pin. The constructor configures the PWM channel with a pulse
  width of 0 and leaves the pins as the hardware has them; they are taken low here.
\<close>

record L6206 =
  duty :: int
  IN2 :: bool
  PWM_1 :: int
  EN :: bool

definition L6206_init :: L6206 where
  "L6206_init = \<lparr> duty = 0, IN2 = False, PWM_1 = 0, EN = False \<rparr>"

definition L6206_set_duty :: "int \<Rightarrow> L6206 \<Rightarrow> L6206" where
  "L6206_set_duty d m =
     (let m1 = m\<lparr>duty := d\<rparr>
      in if d \<ge> 0 then m1\<lparr>IN2 := False, PWM_1 := \<bar>d\<bar>\<rparr>
         else m1\<lparr>IN2 := True, PWM_1 := \<bar>d\<bar>\<rparr>)"

definition L6206_enable :: "L6206 \<Rightarrow> L6206" where
  "L6206_enable m = m\<lparr>EN := True\<rparr>"

definition L6206_disable :: "L6206 \<Rightarrow> L6206" where
  "L6206_disable m = m\<lparr>EN := False\<rparr>"

section \<open>Drive state machine: class \<^verbatim>\<open>motor\<close> of \<^verbatim>\<open>main.py\<close>\<close>

text \<open>
  The fields of the class, prefixed with \<open>m_\<close> because several classes of the program
  share field names such as \<^verbatim>\<open>state\<close>, \<^verbatim>\<open>count\<close> and \<^verbatim>\<open>set\<close>. The object owns
  its motor driver and its encoder. \<open>m_v_meas\<close> and \<open>m_Kp\<close> are Python floats, taken
  as reals; the program assigns them and never reads them.
\<close>

record motor =
  m_mot :: L6206
  m_enc :: encoder
  m_state :: int
  m_set :: string
  m_v_ref :: int
  m_start :: int
  m_end :: int
  m_count :: int
  m_v_meas :: real
  m_v_set :: int
  m_Kp :: real
  m_Ki :: int
  m_adjust1 :: int
  m_adjust2 :: int
  m_adjust3 :: int
  m_adjust4 :: int
  m_adjust5 :: int
  m_period :: int
  m_offset :: int
  m_back :: int
  m_turn :: int
  m_forw :: int

definition m_per :: int where
  "m_per = 5"

definition motor_init :: "L6206 \<Rightarrow> encoder \<Rightarrow> string \<Rightarrow> motor" where
  "motor_init mot enc me_set =
     \<lparr> m_mot = L6206_set_duty 0 mot,
       m_enc = enc,
       m_state = 0,
       m_set = me_set,
       m_v_ref = 15,
       m_start = 0,
       m_end = 0,
       m_count = 0,
       m_v_meas = 0,
       m_v_set = 0,
       m_Kp = 16 / 10,
       m_Ki = 15,
       m_adjust1 = 10,
       m_adjust2 = 40,
       m_adjust3 = 85,
       m_adjust4 = 25,
       m_adjust5 = 30,
       m_period = m_per,
       m_offset = 3,
       m_back = 0,
       m_turn = 0,
       m_forw = 0 \<rparr>"

text \<open>The calls the task makes on the objects it owns, each recorded in the trace.\<close>

definition mot_set_duty :: "int \<Rightarrow> motor \<times> world \<Rightarrow> motor \<times> world" where
  "mot_set_duty d mw =
     (case mw of (m, w) \<Rightarrow> (m\<lparr>m_mot := L6206_set_duty d (m_mot m)\<rparr>, log (Set_duty d) w))"

definition enc_update :: "int \<Rightarrow> motor \<times> world \<Rightarrow> motor \<times> world" where
  "enc_update counter mw =
     (case mw of (m, w) \<Rightarrow> (m\<lparr>m_enc := Encoder_update counter (m_enc m)\<rparr>, log Enc_update w))"

definition enc_zero :: "motor \<times> world \<Rightarrow> motor \<times> world" where
  "enc_zero mw = (case mw of (m, w) \<Rightarrow> (m\<lparr>m_enc := Encoder_zero (m_enc m)\<rparr>, log Enc_zero w))"

text \<open>
  States 1, 2 and 4 to 11 have one shape: the right wheel gets one duty, the left wheel
  another, a wheel with any other tag gets no command, and the state returns to 0.
  \<open>graded_turn r l\<close> is that shape with the two duties of the branch.
\<close>

definition graded_turn :: "int \<Rightarrow> int \<Rightarrow> motor \<times> world \<Rightarrow> motor \<times> world" where
  "graded_turn duty_R duty_L mw =
     (case (if m_set (fst mw) = ''R'' then mot_set_duty duty_R mw
            else if m_set (fst mw) = ''L'' then mot_set_duty duty_L mw
            else mw) of
        (m, w) \<Rightarrow> (m\<lparr>m_state := 0\<rparr>, w))"

text \<open>State 0: poll this wheel's queue; without a pending code, command the straight duty.\<close>

definition state_0 :: "motor \<times> world \<Rightarrow> int outcome \<times> motor \<times> world" where
  "state_0 mw =
     (case mw of (m, w) \<Rightarrow>
        if m_set m = ''R'' then
          (if Queue_any (turn_q_r w) then
             (case Queue_get (turn_q_r w) of
                Some (v, q) \<Rightarrow>
                  (Done v, m\<lparr>m_state := v\<rparr>, log (Get Turn_q_r) (w\<lparr>turn_q_r := q\<rparr>))
              | None \<Rightarrow> (Raise QueueEmpty, m, w))
           else (case mot_set_duty (m_v_ref m) mw of (m', w') \<Rightarrow> (Done (m_state m'), m', w')))
        else if m_set m = ''L'' then
          (if Queue_any (turn_q_l w) then
             (case Queue_get (turn_q_l w) of
                Some (v, q) \<Rightarrow>
                  (Done v, m\<lparr>m_state := v\<rparr>, log (Get Turn_q_l) (w\<lparr>turn_q_l := q\<rparr>))
              | None \<Rightarrow> (Raise QueueEmpty, m, w))
           else (case mot_set_duty (m_v_ref m + 0) mw of (m', w') \<Rightarrow> (Done (m_state m'), m', w')))
        else (case mot_set_duty (m_v_ref m) mw of (m', w') \<Rightarrow> (Done (m_state m'), m', w')))"

text \<open>
  State 13, the turn sequence. \<open>counter\<close> is the raw count that the \<^verbatim>\<open>update()\<close> made
  inside this state reads from the timer.
\<close>

definition state_13 :: "int \<Rightarrow> motor \<times> world \<Rightarrow> motor \<times> world" where
  "state_13 counter mw =
     (case mw of (m, w) \<Rightarrow>
        if m_back m = 0 \<and> m_turn m = 0 \<and> m_forw m = 0 then
          (case enc_zero (m, print ''FIRST'' w) of (m1, w1) \<Rightarrow>
             enc_update counter (m1\<lparr>m_back := 1\<rparr>, w1))
        else if m_back m = 1 then
          (case enc_update counter (enc_zero (m, print ''SECOND'' w)) of (m1, w1) \<Rightarrow>
             if \<bar>Encoder_get_position (m_enc m1)\<bar> < 1440 then
               mot_set_duty (- 3)
                 (m1, log (Print_int \<bar>Encoder_get_position (m_enc m1)\<bar>)
                        (log Enc_get_position (log Enc_get_position w1)))
             else
               (case mot_set_duty 0 (m1\<lparr>m_turn := 1, m_back := 0\<rparr>, log Enc_get_position w1) of
                  (m2, w2) \<Rightarrow>
                    if m_count m2 < 1000 then (m2\<lparr>m_count := m_count m2 + 1, m_state := 13\<rparr>, w2)
                    else (m2\<lparr>m_state := 0\<rparr>, w2)))
        else (m\<lparr>m_state := 0\<rparr>, print ''DONE'' w))"

text \<open>The branch of the \<^verbatim>\<open>if\<close>/\<^verbatim>\<open>elif\<close> chain selected by the state, in source order.\<close>

definition dispatch :: "int \<Rightarrow> motor \<times> world \<Rightarrow> int outcome \<times> motor \<times> world" where
  "dispatch counter mw =
     (let m = fst mw;
          yield = (\<lambda>mw'. (Done (m_state (fst mw')), fst mw', snd mw'))
      in if m_state m = 0 then state_0 mw
         else if m_state m = 1 then
           yield (graded_turn (m_v_ref m + m_adjust1 m) (m_v_ref m - m_adjust1 m + 0) mw)
         else if m_state m = 2 then
           yield (graded_turn (m_v_ref m - m_adjust1 m) (m_v_ref m + m_adjust1 m + 0) mw)
         else if m_state m = 3 then
           yield (case mot_set_duty (m_v_ref m) mw of (m', w') \<Rightarrow> (m'\<lparr>m_state := 0\<rparr>, w'))
         else if m_state m = 4 then
           yield (graded_turn (m_v_ref m + m_adjust2 m) (m_v_ref m - m_adjust2 m + 0) mw)
         else if m_state m = 5 then
           yield (graded_turn (m_v_ref m + m_adjust3 m) (m_v_ref m - m_adjust3 m + 0) mw)
         else if m_state m = 6 then
           yield (graded_turn (m_v_ref m + m_adjust4 m) (m_v_ref m - m_adjust4 m + 0) mw)
         else if m_state m = 7 then
           yield (graded_turn (m_v_ref m + m_adjust4 m) (m_v_ref m - m_adjust4 m + 0) mw)
         else if m_state m = 8 then
           yield (graded_turn (m_v_ref m - m_adjust2 m + m_offset m) (m_v_ref m + m_adjust2 m + 0) mw)
         else if m_state m = 9 then
           yield (graded_turn (m_v_ref m - m_adjust3 m + m_offset m) (m_v_ref m + m_adjust3 m + 0) mw)
         else if m_state m = 10 then
           yield (graded_turn (m_v_ref m - m_adjust4 m + m_offset m) (m_v_ref m + m_adjust4 m + 0) mw)
         else if m_state m = 11 then
           yield (graded_turn (m_v_ref m - m_adjust5 m + m_offset m) (m_v_ref m + m_adjust5 m + 0) mw)
         else if m_state m = 12 then
           yield (case mot_set_duty 0 mw of (m', w') \<Rightarrow> (m'\<lparr>m_state := 0\<rparr>, w'))
         else if m_state m = 13 then
           yield (state_13 counter mw)
         else (Raise (ValueError ''Invalid State''), fst mw, snd mw))"

text \<open>
  One pass through the body of the \<^verbatim>\<open>while True\<close> loop of \<^verbatim>\<open>mot_gen\<close>, up to its
  \<^verbatim>\<open>yield\<close>. The inputs are what the hardware returns during the pass: \<open>now\<close> is
  \<^verbatim>\<open>time.ticks_ms()\<close>, \<open>counter\<close> the timer count read by the \<^verbatim>\<open>update()\<close> at the top
  of the loop, \<open>counter'\<close> the count read by the \<^verbatim>\<open>update()\<close> of state 13.
  The velocity estimate divides two Python integers with \<^verbatim>\<open>/\<close>, which raises
  \<^verbatim>\<open>ZeroDivisionError\<close> for a zero divisor.
\<close>

definition mot_step :: "int \<Rightarrow> int \<Rightarrow> int \<Rightarrow> motor \<times> world \<Rightarrow> int outcome \<times> motor \<times> world" where
  "mot_step now counter counter' mw =
     (case enc_update counter mw of (m1, w1) \<Rightarrow>
        let m2 = m1\<lparr>m_end := now\<rparr>;
            d = Encoder_get_delta (m_enc m2);
            w2 = log Enc_get_delta w1;
            t = m_end m2 - m_start m2
        in if t = 0 then (Raise ZeroDivisionError, m2, w2)
           else
             let m3 = m2\<lparr>m_v_meas := (of_int d / of_int t) * (1000 / 1440)\<rparr>;
                 m4 = m3\<lparr>m_start := m_end m3\<rparr>
             in dispatch counter' (m4, w2))"

text \<open>
  The task runs as a generator: each \<^verbatim>\<open>next()\<close> makes one pass and yields, and a pass that
  raises ends the generator. \<open>mot_run\<close> makes one pass per input triple
  \<open>(now, counter, counter')\<close> and stops at the first raise.
\<close>

fun mot_run :: "(int \<times> int \<times> int) list \<Rightarrow> motor \<times> world \<Rightarrow> int outcome list \<times> motor \<times> world" where
  "mot_run [] mw = ([], mw)"
| "mot_run ((now, counter, counter') # ins) mw =
     (case mot_step now counter counter' mw of
        (Done v, mw') \<Rightarrow> (case mot_run ins mw' of (outs, mw'') \<Rightarrow> (Done v # outs, mw''))
      | (Raise e, mw') \<Rightarrow> ([Raise e], mw'))"

text \<open>The calls appended to a trace \<open>old\<close> on the way to a later trace \<open>new\<close>.\<close>

definition new_calls :: "call list \<Rightarrow> call list \<Rightarrow> call list" where
  "new_calls old new = drop (length old) new"

section \<open>Line classifier: class \<^verbatim>\<open>sensor\<close> of \<^verbatim>\<open>main.py\<close>\<close>

text \<open>
  The six ADC channels are outside the program. \<open>readings\<close> holds what each channel
  returns during one pass of the loop; a channel is taken to return the same value to
  every \<^verbatim>\<open>read()\<close> of the pass.
\<close>

record readings =
  S11 :: int
  S9 :: int
  S7 :: int
  S5 :: int
  S3 :: int
  S1 :: int

record sensor =
  s_state :: int
  black :: int
  white :: int

definition sensor_init :: sensor where
  "sensor_init = \<lparr> s_state = 0, black = 2000, white = 2000 \<rparr>"

definition report_right_full :: "world \<Rightarrow> world" where
  "report_right_full w = (if Queue_full (turn_q_r w) then print ''RIGHT QUEUE FULL'' w else w)"

definition report_left_full :: "world \<Rightarrow> world" where
  "report_left_full w = (if Queue_full (turn_q_l w) then print ''LEFT QUEUE FULL'' w else w)"

definition put_both :: "int \<Rightarrow> sensor \<times> world \<Rightarrow> sensor \<times> world" where
  "put_both v sw =
     (case sw of (s, w) \<Rightarrow> (s\<lparr>s_state := 0\<rparr>, turn_q_r_put v (turn_q_l_put v w)))"

text \<open>
  One pass through the body of the \<^verbatim>\<open>while True\<close> loop of \<^verbatim>\<open>sen_gen\<close>: the ordered
  decision table, first match wins.
\<close>

definition sen_step :: "readings \<Rightarrow> sensor \<times> world \<Rightarrow> int outcome \<times> sensor \<times> world" where
  "sen_step r sw =
     (case sw of (s, w) \<Rightarrow>
        let yield = (\<lambda>sw'. (Done (s_state (fst sw')), fst sw', snd sw'))
        in if s_state s = 0 then
          (if S9 r < white s \<and> S7 r > black s \<and> S5 r > black s \<and> S3 r < white s then
             yield (put_both 3 (s, w))
           else if S3 r > black s \<and> S5 r > black s then
             yield (put_both 1 (s, report_right_full w))
           else if S1 r > black s \<and> S3 r > black s then
             yield (put_both 4 (s, report_right_full w))
           else if S1 r > black s \<and> S3 r < white s \<and> S5 r < white s \<and> S7 r < white s
                   \<and> S9 r < white s \<and> S11 r < white s then
             yield (put_both 5 (s, report_right_full w))
           else if S5 r > black s \<and> S7 r > black s \<and> S9 r > black s then
             yield (put_both 6 (s, report_right_full w))
           else if S5 r > black s \<and> S7 r > black s \<and> S9 r > black s \<and> S11 r > black s then
             yield (put_both 7 (s, report_right_full w))
           else if S7 r > black s \<and> S9 r > black s then
             yield (put_both 2 (s, report_left_full w))
           else if S9 r > black s \<and> S11 r > black s then
             yield (put_both 8 (s, report_left_full w))
           else if S11 r > black s \<and> S3 r < white s \<and> S5 r < white s \<and> S7 r < white s
                   \<and> S9 r < white s \<and> S1 r < white s then
             yield (put_both 9 (s, report_left_full w))
           else if S3 r > black s \<and> S5 r > black s \<and> S7 r > black s then
             yield (put_both 10 (s, report_left_full w))
           else if S1 r > black s \<and> S3 r > black s \<and> S5 r > black s \<and> S7 r > black s then
             yield (put_both 11 (s, report_left_full w))
           else
             yield (put_both 3 (s, w)))
        else (Raise (ValueError ''Invalid State''), s, w))"

section \<open>Orientation driver: \<^verbatim>\<open>BNO055.py\<close>\<close>

subsection \<open>Register bus and byte packing\<close>

text \<open>
  Modelled from the spec: the bus object (\<^verbatim>\<open>machine.I2C\<close>) is outside the repository.
  Section 6 of the specification gives its contract: synchronous block reads and block
  writes at register addresses of one fixed-address device. The device is a register
  file \<open>regs\<close>; \<open>writes\<close> lists the write transactions made so far, oldest first, each
  with the device address, the first register and the bytes. Transport errors are not
  modelled.
\<close>

type_synonym byte = "8 word"

record i2c =
  regs :: "nat \<Rightarrow> byte"
  writes :: "(nat \<times> nat \<times> byte list) list"

definition readfrom_mem :: "nat \<Rightarrow> nat \<Rightarrow> nat \<Rightarrow> i2c \<Rightarrow> byte list" where
  "readfrom_mem addr memaddr nbytes bus = map (\<lambda>i. regs bus (memaddr + i)) [0..<nbytes]"

definition writeto_mem :: "nat \<Rightarrow> nat \<Rightarrow> byte list \<Rightarrow> i2c \<Rightarrow> i2c" where
  "writeto_mem addr memaddr buf bus =
     bus\<lparr>regs := (\<lambda>r. if memaddr \<le> r \<and> r < memaddr + length buf then buf ! (r - memaddr)
                      else regs bus r),
         writes := writes bus @ [(addr, memaddr, buf)]\<rparr>"

text \<open>
  Python's \<^verbatim>\<open>bytes([...])\<close> and \<^verbatim>\<open>bytearray([...])\<close> raise \<^verbatim>\<open>ValueError\<close> for an element
  outside 0..255. \<^verbatim>\<open>struct.unpack("<22B", data)\<close> needs exactly 22 bytes and returns
  them as unsigned integers; \<^verbatim>\<open>struct.pack("<22B", *values)\<close> needs exactly 22 values,
  each in 0..255 (the documented behaviour of the \<^verbatim>\<open>struct\<close> module; both raise
  \<^verbatim>\<open>struct.error\<close> otherwise).
\<close>

definition bytes :: "int list \<Rightarrow> error + byte list" where
  "bytes vs =
     (if list_all (\<lambda>v. 0 \<le> v \<and> v < 256) vs then Inr (map word_of_int vs)
      else Inl (ValueError ''bytes must be in range(0, 256)''))"

definition unpack_22B :: "byte list \<Rightarrow> error + int list" where
  "unpack_22B data = (if length data = 22 then Inr (map uint data) else Inl StructError)"

definition pack_22B :: "int list \<Rightarrow> error + byte list" where
  "pack_22B vs =
     (if length vs = 22 \<and> list_all (\<lambda>v. 0 \<le> v \<and> v \<le> 255) vs then Inr (map word_of_int vs)
      else Inl StructError)"

subsection \<open>The driver\<close>

text \<open>
  Class \<^verbatim>\<open>BNO055\<close>: the device address and the two tables of axis-remap and axis-sign
  constants that the constructor stores. The constructor also stores the addresses of the
  offset registers as attributes; no method reads them, and they are left out. The bus is
  passed to each method and returned as it is after the call.
\<close>

record BNO055 =
  i2c_addr :: nat
  AXIS_REMAP_P0 :: int
  AXIS_REMAP_P1 :: int
  AXIS_REMAP_P2 :: int
  AXIS_REMAP_P3 :: int
  AXIS_REMAP_P4 :: int
  AXIS_REMAP_P5 :: int
  AXIS_REMAP_P6 :: int
  AXIS_REMAP_P7 :: int
  AXIS_REMAP_SIGN_P0 :: int
  AXIS_REMAP_SIGN_P1 :: int
  AXIS_REMAP_SIGN_P2 :: int
  AXIS_REMAP_SIGN_P3 :: int
  AXIS_REMAP_SIGN_P4 :: int
  AXIS_REMAP_SIGN_P5 :: int
  AXIS_REMAP_SIGN_P6 :: int
  AXIS_REMAP_SIGN_P7 :: int

definition set_operation_mode :: "int \<Rightarrow> BNO055 \<Rightarrow> i2c \<Rightarrow> unit outcome \<times> i2c" where
  "set_operation_mode mode self bus =
     (case bytes [mode] of
        Inl e \<Rightarrow> (Raise e, bus)
      | Inr b \<Rightarrow> (Done (), writeto_mem (i2c_addr self) 0x3D b bus))"

definition BNO055_init :: "i2c \<Rightarrow> BNO055 \<times> i2c" where
  "BNO055_init bus =
     (let self =
        \<lparr> i2c_addr = 0x28,
          AXIS_REMAP_P0 = 0x21,
          AXIS_REMAP_P1 = 0x24,
          AXIS_REMAP_P2 = 0x24,
          AXIS_REMAP_P3 = 0x21,
          AXIS_REMAP_P4 = 0x24,
          AXIS_REMAP_P5 = 0x21,
          AXIS_REMAP_P6 = 0x21,
          AXIS_REMAP_P7 = 0x24,
          AXIS_REMAP_SIGN_P0 = 0x04,
          AXIS_REMAP_SIGN_P1 = 0x00,
          AXIS_REMAP_SIGN_P2 = 0x06,
          AXIS_REMAP_SIGN_P3 = 0x02,
          AXIS_REMAP_SIGN_P4 = 0x03,
          AXIS_REMAP_SIGN_P5 = 0x01,
          AXIS_REMAP_SIGN_P6 = 0x07,
          AXIS_REMAP_SIGN_P7 = 0x05 \<rparr>
      in (self, snd (set_operation_mode 0x00 self bus)))"

definition read_calibration_coefficients :: "BNO055 \<Rightarrow> i2c \<Rightarrow> error + int list" where
  "read_calibration_coefficients self bus =
     (let coefficients = readfrom_mem (i2c_addr self) 0x55 22 bus
      in unpack_22B coefficients)"

definition write_calibration_coefficients :: "int list \<Rightarrow> BNO055 \<Rightarrow> i2c \<Rightarrow> unit outcome \<times> i2c" where
  "write_calibration_coefficients coefficients self bus =
     (case pack_22B coefficients of
        Inl e \<Rightarrow> (Raise e, bus)
      | Inr packed_data \<Rightarrow> (Done (), writeto_mem (i2c_addr self) 0x55 packed_data bus))"

definition remap_axes :: "int \<Rightarrow> BNO055 \<Rightarrow> i2c \<Rightarrow> unit outcome \<times> i2c" where
  "remap_axes placement self bus =
     (case (if placement = 0 then Some (0x21, 0x04)
            else if placement = 1 then Some (0x24, 0x00)
            else if placement = 2 then Some (0x24, 0x06)
            else if placement = 3 then Some (0x21, 0x02)
            else if placement = 4 then Some (0x24, 0x03)
            else if placement = 5 then Some (0x21, 0x01)
            else if placement = 6 then Some (0x21, 0x07)
            else if placement = 7 then Some (0x24, 0x05)
            else None) of
        None \<Rightarrow> (Raise (ValueError ''Invalid placement value''), bus)
      | Some (remap, sign) \<Rightarrow>
          (case bytes [remap] of
             Inl e \<Rightarrow> (Raise e, bus)
           | Inr b1 \<Rightarrow>
               (let bus1 = writeto_mem (i2c_addr self) 0x41 b1 bus
                in case bytes [sign] of
                     Inl e \<Rightarrow> (Raise e, bus1)
                   | Inr b2 \<Rightarrow> (Done (), writeto_mem (i2c_addr self) 0x42 b2 bus1))))"

text \<open>
  The documented table, as the constructor stores it: entry \<open>p\<close> of each list is the
  constant of placement \<open>p\<close>.
\<close>

definition AXIS_REMAP :: "BNO055 \<Rightarrow> int list" where
  "AXIS_REMAP self =
     [AXIS_REMAP_P0 self, AXIS_REMAP_P1 self, AXIS_REMAP_P2 self, AXIS_REMAP_P3 self,
      AXIS_REMAP_P4 self, AXIS_REMAP_P5 self, AXIS_REMAP_P6 self, AXIS_REMAP_P7 self]"

definition AXIS_REMAP_SIGN :: "BNO055 \<Rightarrow> int list" where
  "AXIS_REMAP_SIGN self =
     [AXIS_REMAP_SIGN_P0 self, AXIS_REMAP_SIGN_P1 self, AXIS_REMAP_SIGN_P2 self,
      AXIS_REMAP_SIGN_P3 self, AXIS_REMAP_SIGN_P4 self, AXIS_REMAP_SIGN_P5 self,
      AXIS_REMAP_SIGN_P6 self, AXIS_REMAP_SIGN_P7 self]"

text \<open>
  The transfer of the claimed round trip: read the coefficients, then write back what
  was read. A failed read is propagated.
\<close>

definition write_back_read :: "BNO055 \<Rightarrow> i2c \<Rightarrow> unit outcome \<times> i2c" where
  "write_back_read self bus =
     (case read_calibration_coefficients self bus of
        Inl e \<Rightarrow> (Raise e, bus)
      | Inr coefficients \<Rightarrow> write_calibration_coefficients coefficients self bus)"

section \<open>Verified properties\<close>

subsection \<open>Facts about float rounding\<close>

lemma round_half_even_of_int: "round_half_even (of_int n) = n"
  by (simp add: round_half_even_def)

lemma binary64_0: "binary64 0 = 0"
  by (simp add: binary64_def)

lemma floor_log2_eq:
  assumes "2 ^ 52 \<le> \<bar>x\<bar> / 2 powr of_int e" and "\<bar>x\<bar> / 2 powr of_int e < 2 ^ 53"
  shows "\<lfloor>Transcendental.log 2 \<bar>x\<bar>\<rfloor> = e + 52"
proof -
  have p: "0 < (2::real) powr of_int e" by simp
  have lo: "2 powr (of_int e + 52) \<le> \<bar>x\<bar>"
  proof -
    have "2 ^ 52 * 2 powr of_int e \<le> \<bar>x\<bar>"
      using assms(1) p by (simp add: pos_le_divide_eq)
    moreover have "(2::real) powr (of_int e + 52) = 2 ^ 52 * 2 powr of_int e"
      by (simp add: powr_add)
    ultimately show ?thesis by simp
  qed
  have hi: "\<bar>x\<bar> < 2 powr (of_int e + 53)"
  proof -
    have "\<bar>x\<bar> < 2 ^ 53 * 2 powr of_int e"
      using assms(2) p by (simp add: pos_divide_less_eq)
    moreover have "(2::real) powr (of_int e + 53) = 2 ^ 53 * 2 powr of_int e"
      by (simp add: powr_add)
    ultimately show ?thesis by simp
  qed
  have pos: "0 < \<bar>x\<bar>"
    using lo powr_gt_zero [of 2 "of_int e + 52"] by linarith
  have "of_int e + 52 \<le> Transcendental.log 2 \<bar>x\<bar>"
    using lo pos by (simp add: le_log_iff)
  moreover have "Transcendental.log 2 \<bar>x\<bar> < of_int e + 53"
    using hi pos by (simp add: log_less_iff)
  ultimately show ?thesis
    by (intro floor_unique) simp_all
qed

lemma binary64_at:
  assumes "2 ^ 52 \<le> \<bar>x\<bar> / 2 powr of_int e" and "\<bar>x\<bar> / 2 powr of_int e < 2 ^ 53"
  shows "binary64 x = of_int (round_half_even (x / 2 powr of_int e)) * 2 powr of_int e"
proof -
  have "x \<noteq> 0" using assms(1) by auto
  moreover have "\<lfloor>Transcendental.log 2 \<bar>x\<bar>\<rfloor> - 52 = e"
    using floor_log2_eq [OF assms] by simp
  ultimately show ?thesis by (simp add: binary64_def)
qed


lemma binary64_normal_int:
  assumes "2 ^ 52 \<le> \<bar>n\<bar>" and "\<bar>n\<bar> < 2 ^ 53"
  shows "binary64 (of_int n * 2 powr of_int e) = of_int n * 2 powr of_int e"
proof -
  let ?x = "real_of_int n * 2 powr of_int e"
  have q: "\<bar>?x\<bar> / 2 powr of_int e = \<bar>real_of_int n\<bar>"
    by (simp add: abs_mult)
  have a: "2 ^ 52 \<le> \<bar>?x\<bar> / 2 powr of_int e"
  proof -
    have "real_of_int (2 ^ 52) \<le> real_of_int \<bar>n\<bar>" using assms(1) by (simp only: of_int_le_iff)
    then show ?thesis by (simp only: q) simp
  qed
  have b: "\<bar>?x\<bar> / 2 powr of_int e < 2 ^ 53"
  proof -
    have "real_of_int \<bar>n\<bar> < real_of_int (2 ^ 53)" using assms(2) by (simp only: of_int_less_iff)
    then show ?thesis by (simp only: q) simp
  qed
  have "?x / 2 powr of_int e = of_int n" by simp
  then show ?thesis
    using binary64_at [OF a b] by (simp add: round_half_even_of_int)
qed

lemma normalise_mantissa:
  fixes a :: int
  assumes "0 < a" and "a < 2 ^ 53"
  shows "\<exists>k. 2 ^ 52 \<le> a * 2 ^ k \<and> a * 2 ^ k < 2 ^ 53"
  using assms
proof (induction a rule: measure_induct_rule [of "\<lambda>a. nat (2 ^ 53 - a)"])
  case (less a)
  show ?case
  proof (cases "2 ^ 52 \<le> a")
    case True
    with less.prems show ?thesis by (intro exI [of _ 0]) simp
  next
    case False
    then have "0 < 2 * a" "2 * a < 2 ^ 53" "nat (2 ^ 53 - 2 * a) < nat (2 ^ 53 - a)"
      using less.prems by simp_all
    from less.IH [OF this(3) this(1) this(2)]
    obtain k where "2 ^ 52 \<le> 2 * a * 2 ^ k \<and> 2 * a * 2 ^ k < 2 ^ 53" by blast
    then show ?thesis by (intro exI [of _ "Suc k"]) (simp add: mult.assoc mult.left_commute)
  qed
qed

lemma binary64_exact:
  assumes "\<bar>m\<bar> \<le> 2 ^ 53"
  shows "binary64 (of_int m * 2 powr of_int e) = of_int m * 2 powr of_int e"
proof -
  consider "m = 0" | "\<bar>m\<bar> = 2 ^ 53" | "0 < \<bar>m\<bar>" "\<bar>m\<bar> < 2 ^ 53"
    using assms by linarith
  then show ?thesis
  proof cases
    case 1
    then show ?thesis by (simp add: binary64_0)
  next
    case 2
    define n where "n = sgn m * 2 ^ 52"
    have n: "2 ^ 52 \<le> \<bar>n\<bar>" "\<bar>n\<bar> < 2 ^ 53"
      using 2 by (auto simp: n_def abs_mult abs_sgn_eq)
    have m: "m = n * 2" using 2 by (auto simp: n_def sgn_if abs_if split: if_splits)
    have "real_of_int m * 2 powr of_int e = real_of_int n * 2 powr of_int (e + 1)"
      by (simp add: m powr_add)
    then show ?thesis using binary64_normal_int [OF n, of "e + 1"] by simp
  next
    case 3
    obtain k where k: "2 ^ 52 \<le> \<bar>m\<bar> * 2 ^ k \<and> \<bar>m\<bar> * 2 ^ k < 2 ^ 53"
      using normalise_mantissa [OF 3] by blast
    define n where "n = m * 2 ^ k"
    have n: "2 ^ 52 \<le> \<bar>n\<bar>" "\<bar>n\<bar> < 2 ^ 53"
      using k by (simp_all add: n_def abs_mult)
    have "real_of_int m * 2 powr of_int e = real_of_int n * 2 powr of_int (e - int k)"
      by (simp add: n_def powr_diff powr_realpow)
    then show ?thesis using binary64_normal_int [OF n, of "e - int k"] by simp
  qed
qed


lemma round_half_even_bounds: "\<lfloor>y\<rfloor> \<le> round_half_even y \<and> round_half_even y \<le> \<lfloor>y\<rfloor> + 1"
  by (simp add: round_half_even_def Let_def)

lemma binary64_idem: "binary64 (binary64 x) = binary64 x"
proof (cases "x = 0")
  case True
  then show ?thesis by (simp add: binary64_0)
next
  case False
  define e where "e = \<lfloor>Transcendental.log 2 \<bar>x\<bar>\<rfloor> - 52"
  define y where "y = x / 2 powr of_int e"
  define n where "n = round_half_even y"
  have pos: "0 < \<bar>x\<bar>" using False by simp
  have l1: "of_int (e + 52) \<le> Transcendental.log 2 \<bar>x\<bar>" unfolding e_def by simp
  have l2: "Transcendental.log 2 \<bar>x\<bar> < of_int (e + 53)"
  proof -
    have "Transcendental.log 2 \<bar>x\<bar> < of_int \<lfloor>Transcendental.log 2 \<bar>x\<bar>\<rfloor> + 1"
      using floor_correct [of "Transcendental.log 2 \<bar>x\<bar>"] by linarith
    moreover have "real_of_int (e + 53) = of_int \<lfloor>Transcendental.log 2 \<bar>x\<bar>\<rfloor> + 1"
      by (simp add: e_def)
    ultimately show ?thesis by linarith
  qed
  have lo: "2 powr of_int (e + 52) \<le> \<bar>x\<bar>"
    using l1 pos by (simp add: le_log_iff)
  have hi: "\<bar>x\<bar> < 2 powr of_int (e + 53)"
    using l2 pos by (simp add: log_less_iff)
  have ay: "\<bar>y\<bar> = \<bar>x\<bar> / 2 powr of_int e" by (simp add: y_def)
  have y1: "2 ^ 52 \<le> \<bar>y\<bar>"
  proof -
    have "(2::real) powr of_int (e + 52) = 2 ^ 52 * 2 powr of_int e" by (simp add: powr_add)
    with lo show ?thesis by (simp add: ay pos_le_divide_eq)
  qed
  have y2: "\<bar>y\<bar> < 2 ^ 53"
  proof -
    have "(2::real) powr of_int (e + 53) = 2 ^ 53 * 2 powr of_int e" by (simp add: powr_add)
    with hi show ?thesis by (simp add: ay pos_divide_less_eq)
  qed
  have fl1: "\<lfloor>y\<rfloor> \<le> 2 ^ 53 - 1"
  proof -
    have "y < real_of_int (2 ^ 53)" using y2 by simp
    then have "\<lfloor>y\<rfloor> < 2 ^ 53" by (simp only: floor_less_iff)
    then show ?thesis by simp
  qed
  have fl2: "- (2 ^ 53) \<le> \<lfloor>y\<rfloor>"
  proof -
    have "real_of_int (- (2 ^ 53)) \<le> y" using y2 by simp
    then show ?thesis by (simp only: le_floor_iff)
  qed
  have nb: "\<bar>n\<bar> \<le> 2 ^ 53"
    using round_half_even_bounds [of y] fl1 fl2 unfolding n_def by linarith
  have "binary64 x = of_int n * 2 powr of_int e"
    using False by (simp add: binary64_def e_def y_def n_def)
  then show ?thesis using binary64_exact [OF nb, of e] by simp
qed

lemma binary64_of_int: "\<bar>m\<bar> \<le> 2 ^ 53 \<Longrightarrow> binary64 (of_int m) = of_int m"
  using binary64_exact [of m 0] by simp

lemma binary64_half: "\<bar>m\<bar> \<le> 2 ^ 53 \<Longrightarrow> binary64 (of_int m / 2) = of_int m / 2"
  using binary64_exact [of m "- 1"] by (simp add: powr_minus_divide)

lemma binary64_fine:
  assumes "2 ^ 52 \<le> \<bar>x\<bar> * 2 ^ k" and "\<bar>x\<bar> * 2 ^ k < 2 ^ 53"
  shows "binary64 x = of_int (round_half_even (x * 2 ^ k)) / 2 ^ k"
proof -
  have p: "(2::real) powr of_int (- int k) = 1 / 2 ^ k"
    by (simp add: powr_minus_divide powr_realpow)
  have q: "y / 2 powr of_int (- int k) = y * 2 ^ k" for y :: real
    by (simp only: p) simp
  have "binary64 x = of_int (round_half_even (x / 2 powr of_int (- int k))) * 2 powr of_int (- int k)"
    by (rule binary64_at) (simp_all only: q assms)
  then show ?thesis by (simp only: q p) simp
qed

lemma binary64_coarse:
  assumes "2 ^ 52 \<le> \<bar>x\<bar> / 2 ^ k" and "\<bar>x\<bar> / 2 ^ k < 2 ^ 53"
  shows "binary64 x = of_int (round_half_even (x / 2 ^ k)) * 2 ^ k"
proof -
  have p: "(2::real) powr of_int (int k) = 2 ^ k"
    by (simp add: powr_realpow)
  have "binary64 x = of_int (round_half_even (x / 2 powr of_int (int k))) * 2 powr of_int (int k)"
    by (rule binary64_at) (simp_all only: p assms)
  then show ?thesis by (simp only: p)
qed

lemma binary64_1: "binary64 1 = 1"
  using binary64_of_int [of 1] by simp

text \<open>
  Two roundings: 5 ms in seconds is not a float, and \<open>2^53 + 1\<close>, midway between two
  floats, goes to the even one.
\<close>

lemma binary64_5ms: "binary64 (5 / 1000) = 5764607523034235 / 2 ^ 60"
  by (subst binary64_fine [where k = 60]) (simp_all add: round_half_even_def)

lemma binary64_tie_to_even: "binary64 (2 ^ 53 + 1) = 2 ^ 53"
  by (subst binary64_coarse [where k = 1]) (simp_all add: round_half_even_def)

subsection \<open>Facts about the odometer\<close>

lemma Encoder_init_exact:
  assumes "\<bar>ar + 1\<bar> \<le> 2 ^ 53"
  shows "Encoder_init ar =
     \<lparr> idx = 0, delta = 0, count = 0, old_count = 0, auto_reload = ar,
       limit = of_int (ar + 1) / 2, neg_limit = of_int (- (ar + 1)) / 2,
       AR1 = ar + 1, position = 0 \<rparr>"
proof -
  have "\<bar>- (ar + 1)\<bar> \<le> 2 ^ 53" using assms by simp
  then have n: "binary64 (of_int (- (ar + 1)) / 2) = of_int (- (ar + 1)) / 2"
    by (rule binary64_half)
  have p: "binary64 (of_int (ar + 1) / 2) = of_int (ar + 1) / 2"
    using assms by (rule binary64_half)
  have m: "- 1 * (ar + 1) = - (ar + 1)" by simp
  show ?thesis
    by (simp only: Encoder_init_def m n p)
qed

lemma Encoder_init_62354:
  "Encoder_init 62354 =
     \<lparr> idx = 0, delta = 0, count = 0, old_count = 0, auto_reload = 62354,
       limit = 62355 / 2, neg_limit = - 62355 / 2, AR1 = 62355, position = 0 \<rparr>"
  using Encoder_init_exact [of 62354] by simp

lemma Encoder_init_3:
  "Encoder_init 3 =
     \<lparr> idx = 0, delta = 0, count = 0, old_count = 0, auto_reload = 3,
       limit = 2, neg_limit = - 2, AR1 = 4, position = 0 \<rparr>"
  using Encoder_init_exact [of 3] by simp

lemma configured_init: "\<bar>ar + 1\<bar> \<le> 2 ^ 53 \<Longrightarrow> configured ar (Encoder_init ar)"
  by (simp add: configured_def Encoder_init_exact)

lemma old_count_init: "old_count (Encoder_init ar) = 0"
  by (simp add: Encoder_init_def)

text \<open>
  Beyond the bound the limit is a rounded value and the comparison changes: for
  \<open>auto_r = 2^54 + 1\<close> the quotient \<open>2^53 + 1\<close> rounds to \<open>2^53\<close>, and a raw jump of
  \<open>2^53 + 1\<close>, exactly half the period, is above the stored limit and gets corrected.
\<close>

lemma Encoder_init_large_limit:
  "limit (Encoder_init (2 ^ 54 + 1)) = 2 ^ 53 \<and>
   delta (Encoder_update (2 ^ 53 + 1) (Encoder_init (2 ^ 54 + 1))) = - (2 ^ 53 + 1)"
proof -
  have q: "real_of_int (2 ^ 54 + 1 + 1) / 2 = 2 ^ 53 + 1" by simp
  have l: "limit (Encoder_init (2 ^ 54 + 1)) = 2 ^ 53"
    by (simp only: Encoder_init_def encoder.simps q binary64_tie_to_even)
  have "old_count (Encoder_init (2 ^ 54 + 1)) = 0" "AR1 (Encoder_init (2 ^ 54 + 1)) = 2 ^ 54 + 2"
    by (simp_all add: Encoder_init_def)
  then have "delta (Encoder_update (2 ^ 53 + 1) (Encoder_init (2 ^ 54 + 1))) = - (2 ^ 53 + 1)"
    using l by (simp add: Encoder_update_def Let_def)
  with l show ?thesis by simp
qed

lemma configured_update: "configured ar e \<Longrightarrow> configured ar (Encoder_update c e)"
  by (simp add: configured_def Encoder_update_def Let_def)

lemma configured_zero: "configured ar e \<Longrightarrow> configured ar (Encoder_zero e)"
  by (simp add: configured_def Encoder_zero_def)

lemma configured_run: "configured ar e \<Longrightarrow> configured ar (Encoder_run e ops)"
  by (induction e ops rule: Encoder_run.induct)
     (simp_all add: configured_update configured_zero)

lemma configured_updates: "configured ar e \<Longrightarrow> configured ar (Encoder_updates e cs)"
  by (induction cs arbitrary: e) (simp_all add: configured_update)

lemma Encoder_updates_append:
  "Encoder_updates e (xs @ ys) = Encoder_updates (Encoder_updates e xs) ys"
  by (induction xs arbitrary: e) simp_all

lemma old_count_update: "old_count (Encoder_update c e) = c"
  by (simp add: Encoder_update_def Let_def)

lemma old_count_zero: "old_count (Encoder_zero e) = 0"
  by (simp add: Encoder_zero_def)

lemma position_zero: "position (Encoder_zero e) = 0"
  by (simp add: Encoder_zero_def)

lemma position_update:
  "position (Encoder_update c e) = position e + delta (Encoder_update c e)"
  by (simp add: Encoder_update_def Let_def)

lemma delta_update_spec:
  assumes "configured ar e"
  shows "delta (Encoder_update c e) = spec_corrected ar (c - old_count e)"
proof -
  from assms have l: "limit e = spec_limit ar" and n: "neg_limit e = - spec_limit ar"
    and a: "AR1 e = ar + 1"
    unfolding configured_def spec_limit_def by (auto simp: field_simps)
  show ?thesis
    by (simp add: Encoder_update_def Let_def spec_corrected_def l n a)
qed

lemma position_updates:
  "position (Encoder_updates e cs) = position e + (\<Sum>s\<leftarrow>Encoder_trace e cs. delta s)"
  by (induction cs arbitrary: e) (simp_all add: position_update)

lemma trace_deltas_spec:
  "configured ar e \<Longrightarrow> map delta (Encoder_trace e cs) = spec_deltas ar (old_count e) cs"
  by (induction cs arbitrary: e)
     (simp_all add: delta_update_spec configured_update old_count_update)

lemma half_less_iff: "(real_of_int a / 2 < real_of_int d) = (a < 2 * d)"
proof -
  have "(real_of_int a / 2 < real_of_int d) = (real_of_int a < real_of_int (2 * d))"
    by (simp add: field_simps)
  then show ?thesis by (simp only: of_int_less_iff)
qed

lemma less_half_iff: "(real_of_int d < real_of_int a / 2) = (2 * d < a)"
proof -
  have "(real_of_int d < real_of_int a / 2) = (real_of_int (2 * d) < real_of_int a)"
    by (simp add: field_simps)
  then show ?thesis by (simp only: of_int_less_iff)
qed

lemma spec_corrected_int:
  "spec_corrected ar d =
     (if ar + 1 < 2 * d then d - (ar + 1) else if 2 * d < - (ar + 1) then d + (ar + 1) else d)"
proof -
  have 1: "(spec_limit ar < real_of_int d) = (ar + 1 < 2 * d)"
    using half_less_iff [of "ar + 1" d] by (simp add: spec_limit_def)
  have 2: "(real_of_int d < - spec_limit ar) = (2 * d < - (ar + 1))"
    using less_half_iff [of d "- (ar + 1)"] by (simp add: spec_limit_def field_simps)
  show ?thesis by (simp add: spec_corrected_def 1 2)
qed

lemma spec_corrected_above:
  assumes "real_of_int d = spec_limit ar + 1"
  shows "spec_corrected ar d = d - (ar + 1)"
proof -
  have "real_of_int (2 * d) = real_of_int (ar + 3)"
    using assms by (simp add: spec_limit_def field_simps)
  then have "2 * d = ar + 3" by (simp only: of_int_eq_iff)
  then show ?thesis by (simp add: spec_corrected_int)
qed

lemma spec_corrected_at_limit:
  assumes "0 \<le> ar" and "real_of_int d = spec_limit ar"
  shows "spec_corrected ar d = d"
proof -
  have "real_of_int (2 * d) = real_of_int (ar + 1)"
    using assms(2) by (simp add: spec_limit_def field_simps)
  then have "2 * d = ar + 1" by (simp only: of_int_eq_iff)
  with assms(1) show ?thesis by (simp add: spec_corrected_int)
qed

lemma spec_corrected_below:
  assumes "0 \<le> ar" and "real_of_int d < - spec_limit ar"
  shows "spec_corrected ar d = d + (ar + 1)"
proof -
  have "real_of_int d < real_of_int (- (ar + 1)) / 2"
    using assms(2) by (simp add: spec_limit_def field_simps)
  then have "2 * d < - (ar + 1)" by (simp only: less_half_iff)
  with assms(1) show ?thesis by (simp add: spec_corrected_int)
qed

text \<open>
  C1. For every auto-reload value whose limits are exact floats (\<open>autoReloadPeriod + 1\<close>
  at most \<open>2^53\<close> in magnitude, odd or even): after \<open>zero()\<close> and N calls of
  \<open>update()\<close>, on any encoder object (whatever was done to it before), the position is
  exactly the sum of the N stored deltas, and these are the wraparound-corrected
  differences of consecutive samples. At the boundary a raw jump of exactly
  \<open>limit + 1\<close> loses \<open>autoReloadPeriod + 1\<close>, a jump of exactly \<open>limit\<close> is stored as
  it is, and a jump below \<open>-limit\<close> gains \<open>autoReloadPeriod + 1\<close>.
\<close>

theorem position_is_sum_of_corrected_deltas:
  "let e0 = Encoder_zero (Encoder_run (Encoder_init ar) ops) in
     (\<bar>ar + 1\<bar> \<le> 2 ^ 53 \<longrightarrow>
        position (Encoder_updates e0 cs) = (\<Sum>s\<leftarrow>Encoder_trace e0 cs. delta s) \<and>
        map delta (Encoder_trace e0 cs) = spec_deltas ar 0 cs) \<and>
     (\<bar>ar + 1\<bar> \<le> 2 ^ 53 \<longrightarrow> real_of_int (c1 - p1) = spec_limit ar + 1 \<longrightarrow>
        delta (Encoder_updates e0 [p1, c1]) = (c1 - p1) - (ar + 1)) \<and>
     (0 \<le> ar \<longrightarrow> ar + 1 \<le> 2 ^ 53 \<longrightarrow> real_of_int (c2 - p2) = spec_limit ar \<longrightarrow>
        delta (Encoder_updates e0 [p2, c2]) = c2 - p2) \<and>
     (0 \<le> ar \<longrightarrow> ar + 1 \<le> 2 ^ 53 \<longrightarrow> real_of_int (c3 - p3) < - spec_limit ar \<longrightarrow>
        delta (Encoder_updates e0 [p3, c3]) = (c3 - p3) + (ar + 1))"
proof -
  define e0 where "e0 = Encoder_zero (Encoder_run (Encoder_init ar) ops)"
  have cfg: "configured ar e0" if "\<bar>ar + 1\<bar> \<le> 2 ^ 53"
    unfolding e0_def using that by (intro configured_zero configured_run configured_init)
  have pos: "position (Encoder_updates e0 cs) = (\<Sum>s\<leftarrow>Encoder_trace e0 cs. delta s)"
    using position_updates [of e0 cs] by (simp add: e0_def position_zero)
  have dl: "\<bar>ar + 1\<bar> \<le> 2 ^ 53 \<longrightarrow> map delta (Encoder_trace e0 cs) = spec_deltas ar 0 cs"
  proof
    assume b: "\<bar>ar + 1\<bar> \<le> 2 ^ 53"
    show "map delta (Encoder_trace e0 cs) = spec_deltas ar 0 cs"
      using trace_deltas_spec [OF cfg [OF b], of cs] by (simp add: e0_def old_count_zero)
  qed
  have two: "delta (Encoder_update c (Encoder_update p e0)) = spec_corrected ar (c - p)"
    if "\<bar>ar + 1\<bar> \<le> 2 ^ 53" for p c
    using delta_update_spec [OF configured_update [OF cfg [OF that]], of c p]
    by (simp add: old_count_update)
  have above: "\<bar>ar + 1\<bar> \<le> 2 ^ 53 \<longrightarrow> real_of_int (c1 - p1) = spec_limit ar + 1 \<longrightarrow>
        delta (Encoder_updates e0 [p1, c1]) = (c1 - p1) - (ar + 1)"
    using spec_corrected_above [of "c1 - p1" ar] by (simp add: two)
  have at_limit: "0 \<le> ar \<longrightarrow> ar + 1 \<le> 2 ^ 53 \<longrightarrow> real_of_int (c2 - p2) = spec_limit ar \<longrightarrow>
        delta (Encoder_updates e0 [p2, c2]) = c2 - p2"
    using spec_corrected_at_limit [of ar "c2 - p2"] by (simp add: two)
  have below: "0 \<le> ar \<longrightarrow> ar + 1 \<le> 2 ^ 53 \<longrightarrow> real_of_int (c3 - p3) < - spec_limit ar \<longrightarrow>
        delta (Encoder_updates e0 [p3, c3]) = (c3 - p3) + (ar + 1)"
    using spec_corrected_below [of ar "c3 - p3"] by (simp add: two)
  have sum: "\<bar>ar + 1\<bar> \<le> 2 ^ 53 \<longrightarrow>
        position (Encoder_updates e0 cs) = (\<Sum>s\<leftarrow>Encoder_trace e0 cs. delta s) \<and>
        map delta (Encoder_trace e0 cs) = spec_deltas ar 0 cs"
    using pos dl by blast
  show ?thesis
    unfolding Let_def e0_def [symmetric]
    by (intro conjI sum above at_limit below)
qed


lemma Encoder_update_literal:
  "Encoder_update c \<lparr>idx = i, delta = d, count = n, old_count = oc, auto_reload = ar,
       limit = l, neg_limit = nl, AR1 = a, position = p\<rparr> =
     (let d' = (if of_int (c - oc) > l then c - oc - a
                else if of_int (c - oc) < nl then c - oc + a else c - oc)
      in \<lparr>idx = i, delta = d', count = c, old_count = c, auto_reload = ar,
       limit = l, neg_limit = nl, AR1 = a, position = p + d'\<rparr>)"
  by (simp add: Encoder_update_def Let_def)

lemma Encoder_zero_literal:
  "Encoder_zero \<lparr>idx = i, delta = d, count = n, old_count = oc, auto_reload = ar,
       limit = l, neg_limit = nl, AR1 = a, position = p\<rparr> =
     \<lparr>idx = i, delta = 0, count = 0, old_count = 0, auto_reload = ar,
       limit = l, neg_limit = nl, AR1 = a, position = 0\<rparr>"
  by (simp add: Encoder_zero_def)

theorem position_is_sum_of_corrected_deltas_witness:
  "position (Encoder_updates (Encoder_zero (Encoder_run (Encoder_init 3) [Update 2, Zero, Update 1])) [3, 1, 0]) = -4 \<and>
   \<bar>3 + 1 :: int\<bar> \<le> 2 ^ 53 \<and> (0::int) \<le> 3 \<and> (3 + 1 :: int) \<le> 2 ^ 53 \<and>
   map delta (Encoder_trace (Encoder_zero (Encoder_run (Encoder_init 3) [Update 2, Zero, Update 1])) [3, 1, 0]) = [-1, -2, -1]
   \<and> real_of_int (3 - 0) = spec_limit 3 + 1
   \<and> delta (Encoder_updates (Encoder_zero (Encoder_run (Encoder_init 3) [Update 2, Zero, Update 1])) [0, 3]) = -1
   \<and> real_of_int (2 - 0) = spec_limit 3 
   \<and> delta (Encoder_updates (Encoder_zero (Encoder_run (Encoder_init 3) [Update 2, Zero, Update 1])) [0, 2]) = 2
   \<and> real_of_int (0 - 3) < - spec_limit 3 
   \<and> delta (Encoder_updates (Encoder_zero (Encoder_run (Encoder_init 3) [Update 2, Zero, Update 1])) [3, 0]) = 1"
  using position_is_sum_of_corrected_deltas
    [of 3 "[Update 2, Zero, Update 1]" "[3, 1, 0]" 3 0 2 0 0 3]
  by (simp add: Let_def spec_limit_def spec_corrected_def Encoder_update_literal Encoder_zero_literal
        Encoder_init_3)


lemma le_half_iff: "(real_of_int d \<le> real_of_int a / 2) = (2 * d \<le> a)"
proof -
  have "(real_of_int d \<le> real_of_int a / 2) = (real_of_int (2 * d) \<le> real_of_int a)"
    by (simp add: field_simps)
  then show ?thesis by (simp only: of_int_le_iff)
qed

lemma half_le_iff: "(- (real_of_int a / 2) \<le> real_of_int d) = (- a \<le> 2 * d)"
proof -
  have "(- (real_of_int a / 2) \<le> real_of_int d) = (real_of_int (- a) \<le> real_of_int (2 * d))"
    by (simp add: field_simps)
  then show ?thesis by (simp only: of_int_le_iff)
qed

lemma spec_corrected_bound:
  assumes "0 \<le> p" "p \<le> ar" "0 \<le> c" "c \<le> ar"
  shows "- (ar + 1) \<le> 2 * spec_corrected ar (c - p) \<and> 2 * spec_corrected ar (c - p) \<le> ar + 1"
  using assms by (simp add: spec_corrected_int)

lemma old_count_run_range:
  "list_all (sample_in_range ar) ops \<Longrightarrow> 0 \<le> old_count e \<Longrightarrow> old_count e \<le> ar \<Longrightarrow>
     0 \<le> old_count (Encoder_run e ops) \<and> old_count (Encoder_run e ops) \<le> ar"
proof (induction e ops rule: Encoder_run.induct)
  case (1 e)
  then show ?case by simp
next
  case (2 e c ops)
  then show ?case by (simp add: old_count_update)
next
  case (3 e ops)
  then have "0 \<le> ar" by simp
  with 3 show ?case by (simp add: old_count_zero)
qed

text \<open>
  C2 as stated: the stored delta lies in the half-open interval \<open>(-ar/2, +ar/2]\<close>. With
  the auto-reload value of the robot (62354) and the in-range samples 31177 then 0, the
  raw difference \<open>-31177\<close> is not below \<open>-31177.5\<close>, so it is stored uncorrected, and
  \<open>-31177 = -ar/2\<close> is outside the interval.
\<close>

theorem delta_half_open_interval_counterexample:
  "\<not> spec_delta_interval 62354
       (delta (Encoder_run (Encoder_init 62354) [Update 31177, Update 0]))"
  by (simp add: spec_delta_interval_def Encoder_init_62354 Encoder_update_literal)

text \<open>
  C2, amended: for an auto-reload value with \<open>autoReloadPeriod + 1\<close> at most \<open>2^53\<close>
  (the limits are then exact floats), in every state reached from the constructor by
  \<open>update()\<close> and \<open>zero()\<close> calls whose raw samples lie in \<open>[0, autoReloadPeriod]\<close>,
  a further \<open>update()\<close> with such a sample stores a delta in the closed interval
  \<open>[-(autoReloadPeriod+1)/2, +(autoReloadPeriod+1)/2]\<close>.
\<close>

theorem delta_closed_interval:
  assumes "list_all (sample_in_range ar) ops" and "0 \<le> c" and "c \<le> ar"
    and "ar + 1 \<le> 2 ^ 53"
  shows "- (real_of_int (ar + 1) / 2)
           \<le> real_of_int (delta (Encoder_update c (Encoder_run (Encoder_init ar) ops))) \<and>
         real_of_int (delta (Encoder_update c (Encoder_run (Encoder_init ar) ops)))
           \<le> real_of_int (ar + 1) / 2"
proof -
  let ?e = "Encoder_run (Encoder_init ar) ops"
  have ar: "0 \<le> ar" using assms(2,3) by simp
  have "\<bar>ar + 1\<bar> \<le> 2 ^ 53" using ar assms(4) by simp
  then have cfg: "configured ar ?e"
    by (intro configured_run configured_init)
  have rng: "0 \<le> old_count ?e \<and> old_count ?e \<le> ar"
    using old_count_run_range [OF assms(1), of "Encoder_init ar"] ar
    by (simp add: old_count_init)
  have d: "delta (Encoder_update c ?e) = spec_corrected ar (c - old_count ?e)"
    by (rule delta_update_spec [OF cfg])
  have "- (ar + 1) \<le> 2 * spec_corrected ar (c - old_count ?e) \<and>
        2 * spec_corrected ar (c - old_count ?e) \<le> ar + 1"
    using spec_corrected_bound [of "old_count ?e" ar c] rng assms(2,3) by simp
  then show ?thesis
    by (simp only: d le_half_iff half_le_iff)
qed

theorem delta_closed_interval_witness:
  "list_all (sample_in_range 62354) [Update 31177] \<and> (0::int) \<le> 0 \<and> (0::int) \<le> 62354 \<and>
   (62354 + 1 :: int) \<le> 2 ^ 53 \<and>
   - (real_of_int (62354 + 1) / 2)
      \<le> real_of_int (delta (Encoder_update 0 (Encoder_run (Encoder_init 62354) [Update 31177]))) \<and>
   real_of_int (delta (Encoder_update 0 (Encoder_run (Encoder_init 62354) [Update 31177])))
      \<le> real_of_int (62354 + 1) / 2 \<and>
   delta (Encoder_update 0 (Encoder_run (Encoder_init 62354) [Update 31177])) = - 31177"
  using delta_closed_interval [of 62354 "[Update 31177]" 0]
  by (simp add: Encoder_init_62354 Encoder_update_literal)

subsection \<open>Facts about the line classifier\<close>

lemma trace_put_both:
  "trace (snd (put_both v (s, w))) = trace w @ [Put Turn_q_l v, Put Turn_q_r v]"
  by (simp add: put_both_def turn_q_r_put_def turn_q_l_put_def log_def)

lemma trace_report_right_full:
  "trace (report_right_full w) =
     trace w @ (if Queue_full (turn_q_r w) then [Print ''RIGHT QUEUE FULL''] else [])"
  by (simp add: report_right_full_def print_def log_def)

lemma trace_report_left_full:
  "trace (report_left_full w) =
     trace w @ (if Queue_full (turn_q_l w) then [Print ''LEFT QUEUE FULL''] else [])"
  by (simp add: report_left_full_def print_def log_def)

lemma queues_report_right_full:
  "turn_q_l (report_right_full w) = turn_q_l w" "turn_q_r (report_right_full w) = turn_q_r w"
  by (simp_all add: report_right_full_def print_def log_def)

lemma queues_report_left_full:
  "turn_q_l (report_left_full w) = turn_q_l w" "turn_q_r (report_left_full w) = turn_q_r w"
  by (simp_all add: report_left_full_def print_def log_def)

lemma queues_put_both:
  "turn_q_l (snd (put_both v (s, w))) = Queue_put v (turn_q_l w)"
  "turn_q_r (snd (put_both v (s, w))) = Queue_put v (turn_q_r w)"
  by (simp_all add: put_both_def turn_q_r_put_def turn_q_l_put_def log_def)

lemma state_put_both: "fst (put_both v (s, w)) = s\<lparr>s_state := 0\<rparr>"
  by (simp add: put_both_def)

lemma s_state_put_both: "s_state (fst (put_both v sw)) = 0"
  by (cases sw) (simp add: put_both_def)

lemma sen_step_right_2:
  assumes "s_state s = 0" "white s \<le> black s"
    "S11 r > black s" "S9 r > black s" "S7 r < white s" "S5 r < white s"
    "S3 r < white s" "S1 r < white s"
  shows "sen_step r (s, w) = (Done 0, put_both 8 (s, report_left_full w))"
  using assms by (simp add: sen_step_def Let_def s_state_put_both)

lemma sen_step_all_low:
  assumes "s_state s = 0" "white s \<le> black s"
    "S11 r < white s" "S9 r < white s" "S7 r < white s" "S5 r < white s"
    "S3 r < white s" "S1 r < white s"
  shows "sen_step r (s, w) = (Done 0, put_both 3 (s, w))"
  using assms by (simp add: sen_step_def Let_def s_state_put_both)



lemma sen_step_cases:
  assumes "s_state s = 0"
  shows "sen_step r (s, w) = (Done 0, put_both 3 (s, w)) \<or>
         (\<exists>c\<in>{1, 4, 5, 6}. sen_step r (s, w) = (Done 0, put_both c (s, report_right_full w))) \<or>
         (\<exists>c\<in>{2, 8, 9}. sen_step r (s, w) = (Done 0, put_both c (s, report_left_full w)))"
  using assms by (simp add: sen_step_def Let_def s_state_put_both)

lemma Queue_put_not_full: "\<not> Queue_full q \<Longrightarrow> items (Queue_put v q) = items q @ [v]"
  by (simp add: Queue_put_def)

text \<open>
  C3 as stated: with the outermost-left sensor S11 and its neighbour S9 high and the
  other four low, code 6 is put on both queues. On the program's thresholds (2000) and
  empty queues the first rule that matches is \<^verbatim>\<open>RIGHT 2\<close>, and code 8 is put on both.
\<close>

theorem outer_left_pair_code_6_counterexample:
  "trace (snd (snd (sen_step \<lparr>S11 = 3000, S9 = 3000, S7 = 100, S5 = 100, S3 = 100, S1 = 100\<rparr>
     (sensor_init, \<lparr>turn_q_r = Queue_init 1000, turn_q_l = Queue_init 1000, trace = []\<rparr>))))
     = [Put Turn_q_l 8, Put Turn_q_r 8] \<and>
   trace (snd (snd (sen_step \<lparr>S11 = 3000, S9 = 3000, S7 = 100, S5 = 100, S3 = 100, S1 = 100\<rparr>
     (sensor_init, \<lparr>turn_q_r = Queue_init 1000, turn_q_l = Queue_init 1000, trace = []\<rparr>))))
     \<noteq> [Put Turn_q_l 6, Put Turn_q_r 6]"
  by (simp add: sen_step_def sensor_init_def Let_def put_both_def report_left_full_def
      turn_q_r_put_def turn_q_l_put_def log_def Queue_put_def Queue_full_def Queue_init_def)

text \<open>
  C3, amended: for one classifier cycle in state 0 with the white threshold not above the
  black one (both are 2000 in the program): if S11 and S9 read above the black threshold
  and the other four sensors below the white threshold, the cycle yields state 0 and puts
  code 8 on the left and on the right queue exactly once each (after the left-queue-full
  diagnostic, if that queue is full); if all six sensors read below the white threshold,
  it puts code 3 on both queues exactly once each, by the final \<^verbatim>\<open>else\<close> branch. A queue
  that is not full then holds the code as its newest element.
\<close>

theorem classifier_outer_left_pair_and_all_low:
  assumes "s_state s = 0" and "white s \<le> black s"
  shows
    "(black s < S11 ra \<and> black s < S9 ra \<and> S7 ra < white s \<and> S5 ra < white s \<and>
      S3 ra < white s \<and> S1 ra < white s \<longrightarrow>
        fst (sen_step ra (s, w)) = Done 0 \<and>
        trace (snd (snd (sen_step ra (s, w)))) =
          trace w @ (if Queue_full (turn_q_l w) then [Print ''LEFT QUEUE FULL''] else [])
                  @ [Put Turn_q_l 8, Put Turn_q_r 8] \<and>
        (\<not> Queue_full (turn_q_l w) \<longrightarrow>
           items (turn_q_l (snd (snd (sen_step ra (s, w))))) = items (turn_q_l w) @ [8]) \<and>
        (\<not> Queue_full (turn_q_r w) \<longrightarrow>
           items (turn_q_r (snd (snd (sen_step ra (s, w))))) = items (turn_q_r w) @ [8])) \<and>
     (S11 rb < white s \<and> S9 rb < white s \<and> S7 rb < white s \<and> S5 rb < white s \<and>
      S3 rb < white s \<and> S1 rb < white s \<longrightarrow>
        fst (sen_step rb (s, w)) = Done 0 \<and>
        trace (snd (snd (sen_step rb (s, w)))) = trace w @ [Put Turn_q_l 3, Put Turn_q_r 3] \<and>
        (\<not> Queue_full (turn_q_l w) \<longrightarrow>
           items (turn_q_l (snd (snd (sen_step rb (s, w))))) = items (turn_q_l w) @ [3]) \<and>
        (\<not> Queue_full (turn_q_r w) \<longrightarrow>
           items (turn_q_r (snd (snd (sen_step rb (s, w))))) = items (turn_q_r w) @ [3]))"
proof (intro conjI impI)
  assume p: "black s < S11 ra \<and> black s < S9 ra \<and> S7 ra < white s \<and> S5 ra < white s \<and>
      S3 ra < white s \<and> S1 ra < white s"
  have st: "sen_step ra (s, w) = (Done 0, put_both 8 (s, report_left_full w))"
    using sen_step_right_2 [OF assms, of ra w] p by simp
  show "fst (sen_step ra (s, w)) = Done 0" by (simp add: st)
  show "trace (snd (snd (sen_step ra (s, w)))) =
          trace w @ (if Queue_full (turn_q_l w) then [Print ''LEFT QUEUE FULL''] else [])
                  @ [Put Turn_q_l 8, Put Turn_q_r 8]"
    by (simp add: st trace_put_both trace_report_left_full)
  show "items (turn_q_l (snd (snd (sen_step ra (s, w))))) = items (turn_q_l w) @ [8]"
    if "\<not> Queue_full (turn_q_l w)"
    using that by (simp add: st queues_put_both queues_report_left_full Queue_put_not_full)
  show "items (turn_q_r (snd (snd (sen_step ra (s, w))))) = items (turn_q_r w) @ [8]"
    if "\<not> Queue_full (turn_q_r w)"
    using that by (simp add: st queues_put_both queues_report_left_full Queue_put_not_full)
next
  assume p: "S11 rb < white s \<and> S9 rb < white s \<and> S7 rb < white s \<and> S5 rb < white s \<and>
      S3 rb < white s \<and> S1 rb < white s"
  have st: "sen_step rb (s, w) = (Done 0, put_both 3 (s, w))"
    using sen_step_all_low [OF assms, of rb w] p by simp
  show "fst (sen_step rb (s, w)) = Done 0" by (simp add: st)
  show "trace (snd (snd (sen_step rb (s, w)))) = trace w @ [Put Turn_q_l 3, Put Turn_q_r 3]"
    by (simp add: st trace_put_both)
  show "items (turn_q_l (snd (snd (sen_step rb (s, w))))) = items (turn_q_l w) @ [3]"
    if "\<not> Queue_full (turn_q_l w)"
    using that by (simp add: st queues_put_both Queue_put_not_full)
  show "items (turn_q_r (snd (snd (sen_step rb (s, w))))) = items (turn_q_r w) @ [3]"
    if "\<not> Queue_full (turn_q_r w)"
    using that by (simp add: st queues_put_both Queue_put_not_full)
qed

theorem classifier_outer_left_pair_and_all_low_witness:
  "s_state sensor_init = 0 \<and> white sensor_init \<le> black sensor_init \<and>
   \<not> Queue_full (Queue_init 1000) \<and>
   trace (snd (snd (sen_step \<lparr>S11 = 3000, S9 = 3000, S7 = 100, S5 = 100, S3 = 100, S1 = 100\<rparr>
     (sensor_init, \<lparr>turn_q_r = Queue_init 1000, turn_q_l = Queue_init 1000, trace = []\<rparr>))))
     = [Put Turn_q_l 8, Put Turn_q_r 8] \<and>
   items (turn_q_l (snd (snd (sen_step \<lparr>S11 = 3000, S9 = 3000, S7 = 100, S5 = 100, S3 = 100, S1 = 100\<rparr>
     (sensor_init, \<lparr>turn_q_r = Queue_init 1000, turn_q_l = Queue_init 1000, trace = []\<rparr>))))) = [8] \<and>
   trace (snd (snd (sen_step \<lparr>S11 = 100, S9 = 100, S7 = 100, S5 = 100, S3 = 100, S1 = 100\<rparr>
     (sensor_init, \<lparr>turn_q_r = Queue_init 1000, turn_q_l = Queue_init 1000, trace = []\<rparr>))))
     = [Put Turn_q_l 3, Put Turn_q_r 3] \<and>
   items (turn_q_r (snd (snd (sen_step \<lparr>S11 = 100, S9 = 100, S7 = 100, S5 = 100, S3 = 100, S1 = 100\<rparr>
     (sensor_init, \<lparr>turn_q_r = Queue_init 1000, turn_q_l = Queue_init 1000, trace = []\<rparr>))))) = [3]"
  using classifier_outer_left_pair_and_all_low
    [where s = sensor_init
       and ra = "\<lparr>S11 = 3000, S9 = 3000, S7 = 100, S5 = 100, S3 = 100, S1 = 100\<rparr>"
       and rb = "\<lparr>S11 = 100, S9 = 100, S7 = 100, S5 = 100, S3 = 100, S1 = 100\<rparr>"
       and w = "\<lparr>turn_q_r = Queue_init 1000, turn_q_l = Queue_init 1000, trace = []\<rparr>"]
  by (simp add: sensor_init_def Queue_init_def Queue_full_def)

text \<open>
  C5 as stated: on a cycle whose target queue is at capacity the enqueue is skipped and
  no put is attempted on the full queue. With the right queue holding 1000 of 1000
  elements and the \<^verbatim>\<open>LEFT 1\<close> pattern (S3 and S5 high), the diagnostic is printed and the
  put on the full right queue is made all the same.
\<close>

theorem no_put_on_full_queue_counterexample:
  "Queue_full \<lparr>items = replicate 1000 3, capacity = 1000\<rparr> \<and>
   trace (snd (snd (sen_step \<lparr>S11 = 100, S9 = 100, S7 = 100, S5 = 3000, S3 = 3000, S1 = 100\<rparr>
     (sensor_init, \<lparr>turn_q_r = \<lparr>items = replicate 1000 3, capacity = 1000\<rparr>,
                    turn_q_l = Queue_init 1000, trace = []\<rparr>))))
     = [Print ''RIGHT QUEUE FULL'', Put Turn_q_l 1, Put Turn_q_r 1]"
  by (simp add: sen_step_def sensor_init_def Let_def put_both_def report_right_full_def print_def
      turn_q_r_put_def turn_q_l_put_def log_def Queue_put_def Queue_full_def Queue_init_def)

text \<open>
  C5, amended: on every classifier cycle in state 0 the producer calls \<^verbatim>\<open>put\<close> for the
  decided code on the left and on the right queue, also when a queue is at capacity: it
  does not skip the put call of the cycle. The decided code is one of 1, 2, 3, 4, 5, 6,
  8, 9. When a left-turn rule (code 1, 4, 5 or 6) fires with the right queue at
  capacity, or a right-turn rule (code 2, 8 or 9) fires with the left queue at capacity,
  the producer prints the queue-full diagnostic before the put calls. Nothing is said
  here about a report in any other case, nor about what the queue does with a put at
  capacity.
\<close>

theorem classifier_always_puts:
  assumes "s_state s = 0"
  shows "\<exists>c diag.
           trace (snd (snd (sen_step r (s, w)))) = trace w @ diag @ [Put Turn_q_l c, Put Turn_q_r c] \<and>
           list_all is_print diag \<and>
           c \<in> {1, 2, 3, 4, 5, 6, 8, 9} \<and>
           (c \<in> {1, 4, 5, 6} \<and> Queue_full (turn_q_r w) \<longrightarrow>
              Print ''RIGHT QUEUE FULL'' \<in> set diag) \<and>
           (c \<in> {2, 8, 9} \<and> Queue_full (turn_q_l w) \<longrightarrow>
              Print ''LEFT QUEUE FULL'' \<in> set diag)"
proof -
  consider
      (straight) "sen_step r (s, w) = (Done 0, put_both 3 (s, w))"
    | (left) c where "c \<in> {1, 4, 5, 6}"
        "sen_step r (s, w) = (Done 0, put_both c (s, report_right_full w))"
    | (right) c where "c \<in> {2, 8, 9}"
        "sen_step r (s, w) = (Done 0, put_both c (s, report_left_full w))"
    using sen_step_cases [OF assms, of r w] by blast
  then show ?thesis
  proof cases
    case straight
    have "trace (snd (snd (sen_step r (s, w)))) = trace w @ [] @ [Put Turn_q_l 3, Put Turn_q_r 3]"
      by (simp add: straight trace_put_both)
    then show ?thesis by (intro exI [of _ 3] exI [of _ "[]"]) simp
  next
    case left
    let ?d = "if Queue_full (turn_q_r w) then [Print ''RIGHT QUEUE FULL''] else []"
    have "trace (snd (snd (sen_step r (s, w)))) = trace w @ ?d @ [Put Turn_q_l c, Put Turn_q_r c]"
      by (simp add: left(2) trace_put_both trace_report_right_full)
    moreover have "c \<notin> {2, 8, 9}" "c \<in> {1, 2, 3, 4, 5, 6, 8, 9}" using left(1) by auto
    ultimately show ?thesis by (intro exI [of _ c] exI [of _ ?d]) simp
  next
    case right
    let ?d = "if Queue_full (turn_q_l w) then [Print ''LEFT QUEUE FULL''] else []"
    have "trace (snd (snd (sen_step r (s, w)))) = trace w @ ?d @ [Put Turn_q_l c, Put Turn_q_r c]"
      by (simp add: right(2) trace_put_both trace_report_left_full)
    moreover have "c \<notin> {1, 4, 5, 6}" "c \<in> {1, 2, 3, 4, 5, 6, 8, 9}" using right(1) by auto
    ultimately show ?thesis by (intro exI [of _ c] exI [of _ ?d]) simp
  qed
qed

theorem classifier_always_puts_witness:
  "s_state sensor_init = 0 \<and>
   Queue_full \<lparr>items = replicate 1000 3, capacity = 1000\<rparr> \<and>
   (\<exists>c diag.
      trace (snd (snd (sen_step \<lparr>S11 = 100, S9 = 100, S7 = 100, S5 = 3000, S3 = 3000, S1 = 100\<rparr>
        (sensor_init, \<lparr>turn_q_r = \<lparr>items = replicate 1000 3, capacity = 1000\<rparr>,
                       turn_q_l = Queue_init 1000, trace = []\<rparr>))))
        = [] @ diag @ [Put Turn_q_l c, Put Turn_q_r c] \<and>
      list_all is_print diag \<and>
      c \<in> {1, 2, 3, 4, 5, 6, 8, 9} \<and>
      (c \<in> {1, 4, 5, 6} \<longrightarrow> Print ''RIGHT QUEUE FULL'' \<in> set diag)) \<and>
   trace (snd (snd (sen_step \<lparr>S11 = 100, S9 = 100, S7 = 100, S5 = 3000, S3 = 3000, S1 = 100\<rparr>
        (sensor_init, \<lparr>turn_q_r = \<lparr>items = replicate 1000 3, capacity = 1000\<rparr>,
                       turn_q_l = Queue_init 1000, trace = []\<rparr>))))
     = [Print ''RIGHT QUEUE FULL'', Put Turn_q_l 1, Put Turn_q_r 1]"
proof -
  from classifier_always_puts
    [of sensor_init "\<lparr>S11 = 100, S9 = 100, S7 = 100, S5 = 3000, S3 = 3000, S1 = 100\<rparr>"
        "\<lparr>turn_q_r = \<lparr>items = replicate 1000 3, capacity = 1000\<rparr>,
          turn_q_l = Queue_init 1000, trace = []\<rparr>"]
  have "\<exists>c diag.
      trace (snd (snd (sen_step \<lparr>S11 = 100, S9 = 100, S7 = 100, S5 = 3000, S3 = 3000, S1 = 100\<rparr>
        (sensor_init, \<lparr>turn_q_r = \<lparr>items = replicate 1000 3, capacity = 1000\<rparr>,
                       turn_q_l = Queue_init 1000, trace = []\<rparr>))))
        = [] @ diag @ [Put Turn_q_l c, Put Turn_q_r c] \<and>
      list_all is_print diag \<and>
      c \<in> {1, 2, 3, 4, 5, 6, 8, 9} \<and>
      (c \<in> {1, 4, 5, 6} \<longrightarrow> Print ''RIGHT QUEUE FULL'' \<in> set diag)"
    by (simp add: sensor_init_def Queue_full_def) blast
  moreover have "trace (snd (snd (sen_step \<lparr>S11 = 100, S9 = 100, S7 = 100, S5 = 3000, S3 = 3000, S1 = 100\<rparr>
        (sensor_init, \<lparr>turn_q_r = \<lparr>items = replicate 1000 3, capacity = 1000\<rparr>,
                       turn_q_l = Queue_init 1000, trace = []\<rparr>))))
     = [Print ''RIGHT QUEUE FULL'', Put Turn_q_l 1, Put Turn_q_r 1]"
    by (simp add: sen_step_def sensor_init_def Let_def put_both_def report_right_full_def print_def
      turn_q_r_put_def turn_q_l_put_def log_def Queue_put_def Queue_full_def Queue_init_def)
  ultimately show ?thesis
    by (simp add: sensor_init_def Queue_full_def)
qed

subsection \<open>Facts about the drive state machine\<close>

lemma new_calls_append: "new_calls t (t @ xs) = xs"
  by (simp add: new_calls_def)

lemma Queue_get_any: "Queue_any q \<Longrightarrow> \<exists>v q'. Queue_get q = Some (v, q') \<and> items q = v # items q'"
  by (cases "items q") (simp_all add: Queue_any_def Queue_get_def)

lemma mot_step_same_tick:
  "now = m_start m \<Longrightarrow>
     mot_step now c c' (m, w) =
       (Raise ZeroDivisionError,
        m\<lparr>m_enc := Encoder_update c (m_enc m), m_end := now\<rparr>,
        w\<lparr>trace := trace w @ [Enc_update, Enc_get_delta]\<rparr>)"
  by (simp add: mot_step_def enc_update_def log_def Let_def)

lemma mot_step_other_tick:
  "now \<noteq> m_start m \<Longrightarrow>
     mot_step now c c' (m, w) =
       dispatch c'
         (m\<lparr>m_enc := Encoder_update c (m_enc m), m_end := now,
            m_v_meas := (of_int (delta (Encoder_update c (m_enc m))) / of_int (now - m_start m))
                          * (1000 / 1440),
            m_start := now\<rparr>,
          w\<lparr>trace := trace w @ [Enc_update, Enc_get_delta]\<rparr>)"
  by (simp add: mot_step_def enc_update_def log_def Let_def Encoder_get_delta_def)

lemma trace_mot_set_duty:
  "trace (snd (mot_set_duty d (m, w))) = trace w @ [Set_duty d]"
  by (simp add: mot_set_duty_def log_def)

lemma trace_graded_turn:
  "trace (snd (graded_turn a b (m, w))) =
     trace w @ (if m_set m = ''R'' then [Set_duty a] else if m_set m = ''L'' then [Set_duty b] else [])"
  by (simp add: graded_turn_def mot_set_duty_def log_def)

lemma m_state_graded_turn: "m_state (fst (graded_turn a b mw)) = 0"
  by (cases mw) (simp add: graded_turn_def mot_set_duty_def)

lemma trace_state_0:
  "trace (snd (snd (state_0 (m, w)))) =
     trace w @
       (if m_set m = ''R'' then (if Queue_any (turn_q_r w) then [Get Turn_q_r] else [Set_duty (m_v_ref m)])
        else if m_set m = ''L'' then (if Queue_any (turn_q_l w) then [Get Turn_q_l] else [Set_duty (m_v_ref m)])
        else [Set_duty (m_v_ref m)])"
  using Queue_get_any [of "turn_q_r w"] Queue_get_any [of "turn_q_l w"]
  by (auto simp: state_0_def mot_set_duty_def log_def)

lemma fst_state_0: "\<exists>v. fst (state_0 (m, w)) = Done v"
  using Queue_get_any [of "turn_q_r w"] Queue_get_any [of "turn_q_l w"]
  by (auto simp: state_0_def mot_set_duty_def log_def)

lemma trace_state_13:
  "trace (snd (state_13 c (m, w))) =
     trace w @
       (if m_back m = 0 \<and> m_turn m = 0 \<and> m_forw m = 0 then [Print ''FIRST'', Enc_zero, Enc_update]
        else if m_back m = 1 then
          [Print ''SECOND'', Enc_zero, Enc_update] @
          (if \<bar>position (Encoder_update c (Encoder_zero (m_enc m)))\<bar> < 1440
           then [Enc_get_position, Enc_get_position,
                 Print_int \<bar>position (Encoder_update c (Encoder_zero (m_enc m)))\<bar>, Set_duty (- 3)]
           else [Enc_get_position, Set_duty 0])
        else [Print ''DONE''])"
  by (simp add: state_13_def mot_set_duty_def enc_update_def enc_zero_def print_def log_def
      Encoder_get_position_def)


lemma new_calls_append2: "new_calls t ((t @ xs) @ ys) = xs @ ys"
  by (simp add: new_calls_def)

lemmas dispatch_traces =
  dispatch_def Let_def trace_graded_turn trace_state_0 trace_state_13 mot_set_duty_def log_def
  new_calls_append new_calls_append2

lemma dispatch_appends:
  "\<exists>xs. trace (snd (snd (dispatch c' (m, w)))) = trace w @ xs \<and>
        length (filter is_set_duty xs) \<le> 1"
  by (simp add: dispatch_traces)

lemma dispatch_graded_states:
  assumes "1 \<le> m_state m" "m_state m \<le> 12" "m_set m = ''R'' \<or> m_set m = ''L''"
  shows "\<exists>d. trace (snd (snd (dispatch c' (m, w)))) = trace w @ [Set_duty d]"
proof -
  from assms(1,2) have "m_state m \<in> {1, 2, 3, 4, 5, 6, 7, 8, 9, 10, 11, 12}" by simp arith
  with assms(3) show ?thesis
    by (auto simp: dispatch_traces)
qed


lemma dispatch_state_0:
  "m_state m = 0 \<Longrightarrow>
     trace (snd (snd (dispatch c' (m, w)))) =
       trace w @
       (if m_set m = ''R'' then (if Queue_any (turn_q_r w) then [Get Turn_q_r] else [Set_duty (m_v_ref m)])
        else if m_set m = ''L'' then (if Queue_any (turn_q_l w) then [Get Turn_q_l] else [Set_duty (m_v_ref m)])
        else [Set_duty (m_v_ref m)])"
  by (simp add: dispatch_def Let_def trace_state_0)

lemma dispatch_state_13:
  "m_state m = 13 \<Longrightarrow>
     length (filter is_set_duty (new_calls (trace w) (trace (snd (snd (dispatch c' (m, w)))))))
       = (if m_back m = 1 then 1 else 0)"
  by (simp add: dispatch_traces)

lemma dispatch_done:
  assumes "0 \<le> m_state m" "m_state m \<le> 13"
  shows "\<exists>v. fst (dispatch c' (m, w)) = Done v"
proof -
  from assms have "m_state m \<in> {0, 1, 2, 3, 4, 5, 6, 7, 8, 9, 10, 11, 12, 13}" by simp arith
  then show ?thesis
    using fst_state_0 [of m w] by (auto simp: dispatch_def Let_def)
qed

lemma dispatch_not_zero_division: "fst (dispatch c' (m, w)) \<noteq> Raise ZeroDivisionError"
  using fst_state_0 [of m w] by (auto simp: dispatch_def Let_def)


lemmas mot_step_unfold =
  mot_step_def dispatch_def state_0_def graded_turn_def mot_set_duty_def enc_update_def log_def
  Let_def Queue_any_def Queue_get_def Encoder_get_delta_def

lemmas concrete_step =
  mot_step_unfold motor_init_def L6206_init_def L6206_set_duty_def Encoder_init_62354
  Encoder_update_literal Encoder_zero_literal Queue_init_def m_per_def state_13_def enc_zero_def
  print_def Encoder_get_position_def

text \<open>
  C4 as stated: with code 1 in the queue of a machine in state 0, one duty command is
  issued for the code. For the right wheel as constructed (\<open>start = 0\<close>) whose first
  cycle reads the tick value 0, the velocity computation divides by zero: the cycle
  raises \<^verbatim>\<open>ZeroDivisionError\<close>, which ends the generator, no duty command is issued and
  code 1 stays in the queue.
\<close>

theorem code_1_same_tick_counterexample:
  "mot_run [(0, 12, 12), (5, 30, 30)]
     (motor_init L6206_init (Encoder_init 62354) ''R'',
      \<lparr>turn_q_r = \<lparr>items = [1], capacity = 1000\<rparr>, turn_q_l = Queue_init 1000, trace = []\<rparr>)
   = ([Raise ZeroDivisionError],
      (motor_init L6206_init (Encoder_init 62354) ''R'')
        \<lparr>m_enc := Encoder_update 12 (Encoder_init 62354), m_end := 0\<rparr>,
      \<lparr>turn_q_r = \<lparr>items = [1], capacity = 1000\<rparr>, turn_q_l = Queue_init 1000,
       trace = [Enc_update, Enc_get_delta]\<rparr>)"
  by (simp add: concrete_step)

text \<open>
  C4, amended: a drive state machine in state 0 whose queue has code 1 at its head, run
  for two cycles that each read a tick value different from the one stored by the cycle
  before (for the first cycle, from the stored start): the first cycle takes the code
  and yields state 1, the second issues the one duty command of the run,
  \<open>v_ref + adjust1\<close> for the right wheel and \<open>v_ref - adjust1\<close> for the left wheel,
  and yields state 0, so that the machine is idle again on the next cycle.
\<close>

theorem code_1_single_duty_then_idle:
  assumes "m_state m = 0" and "now1 \<noteq> m_start m" and "now2 \<noteq> now1"
  shows
    "(m_set m = ''R'' \<and> items (turn_q_r w) = 1 # rest \<longrightarrow>
        fst (mot_run [(now1, c1, c1'), (now2, c2, c2')] (m, w)) = [Done 1, Done 0] \<and>
        trace (snd (snd (mot_run [(now1, c1, c1'), (now2, c2, c2')] (m, w)))) =
          trace w @ [Enc_update, Enc_get_delta, Get Turn_q_r,
                     Enc_update, Enc_get_delta, Set_duty (m_v_ref m + m_adjust1 m)] \<and>
        m_state (fst (snd (mot_run [(now1, c1, c1'), (now2, c2, c2')] (m, w)))) = 0 \<and>
        items (turn_q_r (snd (snd (mot_run [(now1, c1, c1'), (now2, c2, c2')] (m, w))))) = rest) \<and>
     (m_set m = ''L'' \<and> items (turn_q_l w) = 1 # rest \<longrightarrow>
        fst (mot_run [(now1, c1, c1'), (now2, c2, c2')] (m, w)) = [Done 1, Done 0] \<and>
        trace (snd (snd (mot_run [(now1, c1, c1'), (now2, c2, c2')] (m, w)))) =
          trace w @ [Enc_update, Enc_get_delta, Get Turn_q_l,
                     Enc_update, Enc_get_delta, Set_duty (m_v_ref m - m_adjust1 m)] \<and>
        m_state (fst (snd (mot_run [(now1, c1, c1'), (now2, c2, c2')] (m, w)))) = 0 \<and>
        items (turn_q_l (snd (snd (mot_run [(now1, c1, c1'), (now2, c2, c2')] (m, w))))) = rest)"
proof (intro conjI impI)
  assume a: "m_set m = ''R'' \<and> items (turn_q_r w) = 1 # rest"
  have run: "mot_run [(now1, c1, c1'), (now2, c2, c2')] (m, w) =
      ([Done 1, Done 0],
       fst (snd (mot_step now2 c2 c2' (snd (mot_step now1 c1 c1' (m, w))))),
       snd (snd (mot_step now2 c2 c2' (snd (mot_step now1 c1 c1' (m, w))))))"
    using assms a by (simp add: mot_step_unfold)
  show "fst (mot_run [(now1, c1, c1'), (now2, c2, c2')] (m, w)) = [Done 1, Done 0]"
    by (simp only: run fst_conv)
  show "trace (snd (snd (mot_run [(now1, c1, c1'), (now2, c2, c2')] (m, w)))) =
          trace w @ [Enc_update, Enc_get_delta, Get Turn_q_r,
                     Enc_update, Enc_get_delta, Set_duty (m_v_ref m + m_adjust1 m)]"
    unfolding run using assms a by (simp add: mot_step_unfold)
  show "m_state (fst (snd (mot_run [(now1, c1, c1'), (now2, c2, c2')] (m, w)))) = 0"
    unfolding run using assms a by (simp add: mot_step_unfold)
  show "items (turn_q_r (snd (snd (mot_run [(now1, c1, c1'), (now2, c2, c2')] (m, w))))) = rest"
    unfolding run using assms a by (simp add: mot_step_unfold)
next
  assume a: "m_set m = ''L'' \<and> items (turn_q_l w) = 1 # rest"
  have run: "mot_run [(now1, c1, c1'), (now2, c2, c2')] (m, w) =
      ([Done 1, Done 0],
       fst (snd (mot_step now2 c2 c2' (snd (mot_step now1 c1 c1' (m, w))))),
       snd (snd (mot_step now2 c2 c2' (snd (mot_step now1 c1 c1' (m, w))))))"
    using assms a by (simp add: mot_step_unfold)
  show "fst (mot_run [(now1, c1, c1'), (now2, c2, c2')] (m, w)) = [Done 1, Done 0]"
    by (simp only: run fst_conv)
  show "trace (snd (snd (mot_run [(now1, c1, c1'), (now2, c2, c2')] (m, w)))) =
          trace w @ [Enc_update, Enc_get_delta, Get Turn_q_l,
                     Enc_update, Enc_get_delta, Set_duty (m_v_ref m - m_adjust1 m)]"
    unfolding run using assms a by (simp add: mot_step_unfold)
  show "m_state (fst (snd (mot_run [(now1, c1, c1'), (now2, c2, c2')] (m, w)))) = 0"
    unfolding run using assms a by (simp add: mot_step_unfold)
  show "items (turn_q_l (snd (snd (mot_run [(now1, c1, c1'), (now2, c2, c2')] (m, w))))) = rest"
    unfolding run using assms a by (simp add: mot_step_unfold)
qed


theorem code_1_single_duty_then_idle_witness:
  "m_state (motor_init L6206_init (Encoder_init 62354) ''R'') = 0 \<and>
   5 \<noteq> m_start (motor_init L6206_init (Encoder_init 62354) ''R'') \<and> (10::int) \<noteq> 5 \<and>
   m_set (motor_init L6206_init (Encoder_init 62354) ''R'') = ''R'' \<and>
   items (turn_q_r \<lparr>turn_q_r = \<lparr>items = [1], capacity = 1000\<rparr>, turn_q_l = Queue_init 1000, trace = []\<rparr>)
     = 1 # [] \<and>
   fst (mot_run [(5, 12, 12), (10, 30, 30)]
         (motor_init L6206_init (Encoder_init 62354) ''R'',
          \<lparr>turn_q_r = \<lparr>items = [1], capacity = 1000\<rparr>, turn_q_l = Queue_init 1000, trace = []\<rparr>))
     = [Done 1, Done 0] \<and>
   trace (snd (snd (mot_run [(5, 12, 12), (10, 30, 30)]
         (motor_init L6206_init (Encoder_init 62354) ''R'',
          \<lparr>turn_q_r = \<lparr>items = [1], capacity = 1000\<rparr>, turn_q_l = Queue_init 1000, trace = []\<rparr>))))
     = [Enc_update, Enc_get_delta, Get Turn_q_r, Enc_update, Enc_get_delta, Set_duty 25]"
  using code_1_single_duty_then_idle
    [where m = "motor_init L6206_init (Encoder_init 62354) ''R''" and ?now1.0 = 5 and ?now2.0 = 10
       and w = "\<lparr>turn_q_r = \<lparr>items = [1], capacity = 1000\<rparr>, turn_q_l = Queue_init 1000, trace = []\<rparr>"
       and rest = "[]" and ?c1.0 = 12 and c1' = 12 and ?c2.0 = 30 and c2' = 30]
  by (simp add: motor_init_def)


lemma v_meas_state_0: "m_v_meas (fst (snd (state_0 (m, w)))) = m_v_meas m"
  using Queue_get_any [of "turn_q_r w"] Queue_get_any [of "turn_q_l w"]
  by (auto simp: state_0_def mot_set_duty_def)

lemma v_meas_graded_turn: "m_v_meas (fst (graded_turn a b (m, w))) = m_v_meas m"
  by (simp add: graded_turn_def mot_set_duty_def)

lemma v_meas_state_13: "m_v_meas (fst (state_13 c (m, w))) = m_v_meas m"
  by (simp add: state_13_def mot_set_duty_def enc_update_def enc_zero_def)

lemma v_meas_dispatch: "m_v_meas (fst (snd (dispatch c' (m, w)))) = m_v_meas m"
  by (simp add: dispatch_def Let_def v_meas_state_0 v_meas_graded_turn v_meas_state_13
      mot_set_duty_def)

text \<open>
  C7. Every pass divides the encoder delta by \<open>now - start\<close> with no zero guard. The pass
  raises \<^verbatim>\<open>ZeroDivisionError\<close> exactly when \<^verbatim>\<open>ticks_ms()\<close> returns the value of the
  previous pass; it has then updated the encoder and read its delta and nothing else:
  no duty command, no queue access, the state field as it was. With a different tick
  value the velocity estimate is \<open>(delta / (now - start)) * (1000 / 1440)\<close> and, in any
  of the states 0 to 13, the pass yields.
\<close>

theorem velocity_division_unguarded:
  "(fst (mot_step now c c' (m, w)) = Raise ZeroDivisionError \<longleftrightarrow> now = m_start m) \<and>
   (now = m_start m \<longrightarrow>
      mot_step now c c' (m, w) =
        (Raise ZeroDivisionError,
         m\<lparr>m_enc := Encoder_update c (m_enc m), m_end := now\<rparr>,
         w\<lparr>trace := trace w @ [Enc_update, Enc_get_delta]\<rparr>)) \<and>
   (now \<noteq> m_start m \<longrightarrow>
      m_v_meas (fst (snd (mot_step now c c' (m, w)))) =
        (of_int (delta (Encoder_update c (m_enc m))) / of_int (now - m_start m)) * (1000 / 1440)) \<and>
   (now \<noteq> m_start m \<and> 0 \<le> m_state m \<and> m_state m \<le> 13 \<longrightarrow>
      (\<exists>v. fst (mot_step now c c' (m, w)) = Done v))"
proof (intro conjI impI)
  show "fst (mot_step now c c' (m, w)) = Raise ZeroDivisionError \<longleftrightarrow> now = m_start m"
  proof (cases "now = m_start m")
    case True
    then show ?thesis by (simp add: mot_step_same_tick)
  next
    case False
    then show ?thesis by (simp add: mot_step_other_tick dispatch_not_zero_division)
  qed
next
  assume "now = m_start m"
  then show "mot_step now c c' (m, w) =
        (Raise ZeroDivisionError,
         m\<lparr>m_enc := Encoder_update c (m_enc m), m_end := now\<rparr>,
         w\<lparr>trace := trace w @ [Enc_update, Enc_get_delta]\<rparr>)"
    by (rule mot_step_same_tick)
next
  assume "now \<noteq> m_start m"
  then show "m_v_meas (fst (snd (mot_step now c c' (m, w)))) =
        (of_int (delta (Encoder_update c (m_enc m))) / of_int (now - m_start m)) * (1000 / 1440)"
    by (simp add: mot_step_other_tick v_meas_dispatch)
next
  assume a: "now \<noteq> m_start m \<and> 0 \<le> m_state m \<and> m_state m \<le> 13"
  then show "\<exists>v. fst (mot_step now c c' (m, w)) = Done v"
    by (simp add: mot_step_other_tick dispatch_done)
qed

theorem velocity_division_unguarded_witness:
  "7 \<noteq> m_start (motor_init L6206_init (Encoder_init 62354) ''R'') \<and>
   0 \<le> m_state (motor_init L6206_init (Encoder_init 62354) ''R'') \<and>
   m_state (motor_init L6206_init (Encoder_init 62354) ''R'') \<le> 13 \<and>
   fst (mot_step 7 12 12 (motor_init L6206_init (Encoder_init 62354) ''R'',
          \<lparr>turn_q_r = Queue_init 1000, turn_q_l = Queue_init 1000, trace = []\<rparr>)) = Done 0 \<and>
   m_start (fst (snd (mot_step 7 12 12 (motor_init L6206_init (Encoder_init 62354) ''R'',
          \<lparr>turn_q_r = Queue_init 1000, turn_q_l = Queue_init 1000, trace = []\<rparr>)))) = 7 \<and>
   mot_run [(7, 12, 12), (7, 30, 30)]
     (motor_init L6206_init (Encoder_init 62354) ''R'',
      \<lparr>turn_q_r = Queue_init 1000, turn_q_l = Queue_init 1000, trace = []\<rparr>) =
     ([Done 0, Raise ZeroDivisionError],
      snd (mot_step 7 30 30 (snd (mot_step 7 12 12
        (motor_init L6206_init (Encoder_init 62354) ''R'',
         \<lparr>turn_q_r = Queue_init 1000, turn_q_l = Queue_init 1000, trace = []\<rparr>))))) \<and>
   trace (snd (snd (mot_run [(7, 12, 12), (7, 30, 30)]
     (motor_init L6206_init (Encoder_init 62354) ''R'',
      \<lparr>turn_q_r = Queue_init 1000, turn_q_l = Queue_init 1000, trace = []\<rparr>)))) =
     [Enc_update, Enc_get_delta, Set_duty 15, Enc_update, Enc_get_delta]"
  using velocity_division_unguarded
    [where now = 7 and c = 12 and c' = 12
       and m = "motor_init L6206_init (Encoder_init 62354) ''R''"
       and w = "\<lparr>turn_q_r = Queue_init 1000, turn_q_l = Queue_init 1000, trace = []\<rparr>"]
    velocity_division_unguarded
    [where now = 7 and c = 30 and c' = 30
       and m = "fst (snd (mot_step 7 12 12 (motor_init L6206_init (Encoder_init 62354) ''R'',
          \<lparr>turn_q_r = Queue_init 1000, turn_q_l = Queue_init 1000, trace = []\<rparr>)))"
       and w = "snd (snd (mot_step 7 12 12 (motor_init L6206_init (Encoder_init 62354) ''R'',
          \<lparr>turn_q_r = Queue_init 1000, turn_q_l = Queue_init 1000, trace = []\<rparr>)))"]
  by (simp add: concrete_step)


text \<open>
  C6 as stated: every cycle issues exactly one duty command, and no cycle in states 1 to
  12 reads the odometer. For the right wheel in state 0 with code 1 pending, the cycle
  takes the code and issues no duty command; the next cycle, in state 1, updates the
  encoder and reads its delta before it commands the duty.
\<close>

theorem one_duty_per_cycle_counterexample:
  "trace (snd (snd (mot_step 5 12 12
      (motor_init L6206_init (Encoder_init 62354) ''R'',
       \<lparr>turn_q_r = \<lparr>items = [1], capacity = 1000\<rparr>, turn_q_l = Queue_init 1000, trace = []\<rparr>))))
     = [Enc_update, Enc_get_delta, Get Turn_q_r] \<and>
   m_state (fst (snd (mot_step 5 12 12
      (motor_init L6206_init (Encoder_init 62354) ''R'',
       \<lparr>turn_q_r = \<lparr>items = [1], capacity = 1000\<rparr>, turn_q_l = Queue_init 1000, trace = []\<rparr>))))
     = 1 \<and>
   new_calls [Enc_update, Enc_get_delta, Get Turn_q_r]
     (trace (snd (snd (mot_step 10 30 30 (snd (mot_step 5 12 12
      (motor_init L6206_init (Encoder_init 62354) ''R'',
       \<lparr>turn_q_r = \<lparr>items = [1], capacity = 1000\<rparr>, turn_q_l = Queue_init 1000, trace = []\<rparr>)))))))
     = [Enc_update, Enc_get_delta, Set_duty 25]"
  by (simp add: concrete_step new_calls_def)

text \<open>
  C6, amended: a cycle of a drive state machine that gets past the velocity computation
  (the tick value differs from the previous one) first updates the encoder and reads its
  delta, in every state, and issues at most one duty command. In states 1 to 12, for a
  wheel tagged R or L, the cycle consists of exactly these two encoder calls and one duty
  command. In state 0 it issues one duty command when no code is pending for the wheel
  and none when it takes a code from the queue. In state 13 it issues one duty command
  when the back flag is set and none otherwise.
\<close>

theorem duty_commands_and_odometer_reads:
  assumes "now \<noteq> m_start m"
  shows
    "take 2 (new_calls (trace w) (trace (snd (snd (mot_step now c c' (m, w))))))
       = [Enc_update, Enc_get_delta] \<and>
     length (filter is_set_duty
       (new_calls (trace w) (trace (snd (snd (mot_step now c c' (m, w))))))) \<le> 1 \<and>
     (1 \<le> m_state m \<and> m_state m \<le> 12 \<and> (m_set m = ''R'' \<or> m_set m = ''L'') \<longrightarrow>
        (\<exists>d. new_calls (trace w) (trace (snd (snd (mot_step now c c' (m, w)))))
               = [Enc_update, Enc_get_delta, Set_duty d])) \<and>
     (m_state m = 0 \<longrightarrow>
        length (filter is_set_duty
          (new_calls (trace w) (trace (snd (snd (mot_step now c c' (m, w)))))))
        = (if (m_set m = ''R'' \<and> Queue_any (turn_q_r w)) \<or> (m_set m = ''L'' \<and> Queue_any (turn_q_l w))
           then 0 else 1)) \<and>
     (m_state m = 13 \<longrightarrow>
        length (filter is_set_duty
          (new_calls (trace w) (trace (snd (snd (mot_step now c c' (m, w)))))))
        = (if m_back m = 1 then 1 else 0))"
proof -
  define m1 where "m1 = m\<lparr>m_enc := Encoder_update c (m_enc m), m_end := now,
            m_v_meas := (of_int (delta (Encoder_update c (m_enc m))) / of_int (now - m_start m))
                          * (1000 / 1440),
            m_start := now\<rparr>"
  define w1 where "w1 = w\<lparr>trace := trace w @ [Enc_update, Enc_get_delta]\<rparr>"
  define calls where
    "calls = new_calls (trace w) (trace (snd (snd (mot_step now c c' (m, w)))))"
  define rest where "rest = new_calls (trace w1) (trace (snd (snd (dispatch c' (m1, w1)))))"
  have step: "mot_step now c c' (m, w) = dispatch c' (m1, w1)"
    unfolding m1_def w1_def by (rule mot_step_other_tick [OF assms])
  obtain xs where xs: "trace (snd (snd (dispatch c' (m1, w1)))) = trace w1 @ xs"
      and one: "length (filter is_set_duty xs) \<le> 1"
    using dispatch_appends [of c' m1 w1] by blast
  have rest: "rest = xs" by (simp add: rest_def xs new_calls_append)
  have tw1: "trace w1 = trace w @ [Enc_update, Enc_get_delta]" by (simp add: w1_def)
  have calls: "calls = [Enc_update, Enc_get_delta] @ rest"
    by (simp add: calls_def step xs rest tw1 new_calls_append)
  have same: "m_state m1 = m_state m" "m_set m1 = m_set m" "m_back m1 = m_back m"
    "m_v_ref m1 = m_v_ref m" "turn_q_r w1 = turn_q_r w" "turn_q_l w1 = turn_q_l w"
    by (simp_all add: m1_def w1_def)
  have a: "take 2 calls = [Enc_update, Enc_get_delta]" by (simp add: calls)
  have b: "length (filter is_set_duty calls) \<le> 1" using one by (simp add: calls rest)
  have c: "\<exists>d. calls = [Enc_update, Enc_get_delta, Set_duty d]"
    if h: "1 \<le> m_state m \<and> m_state m \<le> 12 \<and> (m_set m = ''R'' \<or> m_set m = ''L'')"
  proof -
    have "\<exists>d. trace (snd (snd (dispatch c' (m1, w1)))) = trace w1 @ [Set_duty d]"
      using dispatch_graded_states [of m1 c' w1] h same by simp
    then obtain d where "trace (snd (snd (dispatch c' (m1, w1)))) = trace w1 @ [Set_duty d]"
      by blast
    then have "rest = [Set_duty d]" by (simp add: rest_def new_calls_append)
    then show ?thesis by (simp add: calls)
  qed
  have d: "length (filter is_set_duty calls)
        = (if (m_set m = ''R'' \<and> Queue_any (turn_q_r w)) \<or> (m_set m = ''L'' \<and> Queue_any (turn_q_l w))
           then 0 else 1)" if "m_state m = 0"
  proof -
    have "rest = (if m_set m = ''R'' then (if Queue_any (turn_q_r w) then [Get Turn_q_r] else [Set_duty (m_v_ref m)])
        else if m_set m = ''L'' then (if Queue_any (turn_q_l w) then [Get Turn_q_l] else [Set_duty (m_v_ref m)])
        else [Set_duty (m_v_ref m)])"
      using dispatch_state_0 [of m1 c' w1] that same by (simp add: rest_def new_calls_append)
    then show ?thesis by (simp add: calls)
  qed
  have e: "length (filter is_set_duty calls) = (if m_back m = 1 then 1 else 0)"
    if "m_state m = 13"
    using dispatch_state_13 [of m1 w1 c'] that same by (simp add: calls rest_def)
  show ?thesis
    unfolding calls_def [symmetric] using a b c d e by blast
qed

theorem duty_commands_and_odometer_reads_witness:
  "5 \<noteq> m_start (motor_init L6206_init (Encoder_init 62354) ''R'') \<and>
   m_state (motor_init L6206_init (Encoder_init 62354) ''R'') = 0 \<and>
   Queue_any \<lparr>items = [1], capacity = 1000\<rparr> \<and>
   length (filter is_set_duty (new_calls []
     (trace (snd (snd (mot_step 5 12 12
        (motor_init L6206_init (Encoder_init 62354) ''R'',
         \<lparr>turn_q_r = \<lparr>items = [1], capacity = 1000\<rparr>, turn_q_l = Queue_init 1000, trace = []\<rparr>))))))) = 0 \<and>
   10 \<noteq> m_start (fst (snd (mot_step 5 12 12
        (motor_init L6206_init (Encoder_init 62354) ''R'',
         \<lparr>turn_q_r = \<lparr>items = [1], capacity = 1000\<rparr>, turn_q_l = Queue_init 1000, trace = []\<rparr>)))) \<and>
   m_state (fst (snd (mot_step 5 12 12
        (motor_init L6206_init (Encoder_init 62354) ''R'',
         \<lparr>turn_q_r = \<lparr>items = [1], capacity = 1000\<rparr>, turn_q_l = Queue_init 1000, trace = []\<rparr>)))) = 1 \<and>
   new_calls [Enc_update, Enc_get_delta, Get Turn_q_r]
     (trace (snd (snd (mot_step 10 30 30 (snd (mot_step 5 12 12
        (motor_init L6206_init (Encoder_init 62354) ''R'',
         \<lparr>turn_q_r = \<lparr>items = [1], capacity = 1000\<rparr>, turn_q_l = Queue_init 1000, trace = []\<rparr>)))))))
     = [Enc_update, Enc_get_delta, Set_duty 25] \<and>
   13 \<noteq> m_start ((motor_init L6206_init (Encoder_init 62354) ''L'')\<lparr>m_state := 13, m_back := 1\<rparr>) \<and>
   new_calls []
     (trace (snd (snd (mot_step 13 40 50
        ((motor_init L6206_init (Encoder_init 62354) ''L'')\<lparr>m_state := 13, m_back := 1\<rparr>,
         \<lparr>turn_q_r = Queue_init 1000, turn_q_l = Queue_init 1000, trace = []\<rparr>)))))
     = [Enc_update, Enc_get_delta, Print ''SECOND'', Enc_zero, Enc_update,
        Enc_get_position, Enc_get_position, Print_int 50, Set_duty (- 3)]"
  using duty_commands_and_odometer_reads
    [where now = 5 and c = 12 and c' = 12
       and m = "motor_init L6206_init (Encoder_init 62354) ''R''"
       and w = "\<lparr>turn_q_r = \<lparr>items = [1], capacity = 1000\<rparr>, turn_q_l = Queue_init 1000, trace = []\<rparr>"]
    duty_commands_and_odometer_reads
    [where now = 10 and c = 30 and c' = 30
       and m = "fst (snd (mot_step 5 12 12
        (motor_init L6206_init (Encoder_init 62354) ''R'',
         \<lparr>turn_q_r = \<lparr>items = [1], capacity = 1000\<rparr>, turn_q_l = Queue_init 1000, trace = []\<rparr>)))"
       and w = "snd (snd (mot_step 5 12 12
        (motor_init L6206_init (Encoder_init 62354) ''R'',
         \<lparr>turn_q_r = \<lparr>items = [1], capacity = 1000\<rparr>, turn_q_l = Queue_init 1000, trace = []\<rparr>)))"]
    duty_commands_and_odometer_reads
    [where now = 13 and c = 40 and c' = 50
       and m = "(motor_init L6206_init (Encoder_init 62354) ''L'')\<lparr>m_state := 13, m_back := 1\<rparr>"
       and w = "\<lparr>turn_q_r = Queue_init 1000, turn_q_l = Queue_init 1000, trace = []\<rparr>"]
  by (simp add: concrete_step new_calls_def Queue_any_def)

subsection \<open>Facts about the PID controller\<close>

lemma Ki_zero_run:
  "pid_Ki c = 0 \<Longrightarrow> pid_integral c = 0 \<Longrightarrow>
     pid_Ki (ClosedLoop_run c calls) = 0 \<and> pid_integral (ClosedLoop_run c calls) = 0"
  by (induction c calls rule: ClosedLoop_run.induct)
     (simp_all add: ClosedLoop_update_def ClosedLoop_set_Kp_def ClosedLoop_setpoint_def Let_def
        binary64_0)

lemma Ki_zero_output:
  "pid_Ki c = 0 \<Longrightarrow> pid_integral c = 0 \<Longrightarrow>
     fst (ClosedLoop_update c) = binary64 (pid_Kp c * binary64 (pid_ref c - pid_meas c))"
  by (simp add: ClosedLoop_update_def Let_def binary64_0 binary64_idem)

lemma update_keeps:
  "pid_Ki (snd (ClosedLoop_update c)) = pid_Ki c"
  "pid_ref (snd (ClosedLoop_update c)) = pid_ref c"
  "pid_meas (snd (ClosedLoop_update c)) = pid_meas c"
  "pid_period (snd (ClosedLoop_update c)) = pid_period c"
  "pid_integral (snd (ClosedLoop_update c)) = binary64 (pid_integral c + increment c)"
  by (simp_all add: ClosedLoop_update_def Let_def increment_def)

lemma increment_update: "increment (snd (ClosedLoop_update c)) = increment c"
  by (simp add: increment_def update_keeps)

lemma integral_updates:
  "pid_integral (ClosedLoop_updates n c) = ((\<lambda>s. binary64 (s + increment c)) ^^ n) (pid_integral c)"
proof (induction n arbitrary: c)
  case 0
  then show ?case by simp
next
  case (Suc n)
  let ?f = "\<lambda>s. binary64 (s + increment c)"
  have "pid_integral (ClosedLoop_updates (Suc n) c) =
          (?f ^^ n) (pid_integral (snd (ClosedLoop_update c)))"
    by (simp add: Suc.IH increment_update)
  also have "\<dots> = (?f ^^ n) (?f (pid_integral c))"
    by (simp add: update_keeps)
  also have "\<dots> = (?f ^^ Suc n) (pid_integral c)"
    by (simp only: funpow_Suc_right o_apply)
  finally show ?case .
qed

lemma exact_accumulation:
  assumes "\<forall>k<n. binary64 (of_nat (Suc k) * d) = of_nat (Suc k) * d"
  shows "((\<lambda>s. binary64 (s + d)) ^^ n) 0 = of_nat n * d"
  using assms
proof (induction n)
  case 0
  then show ?case by simp
next
  case (Suc n)
  then have ih: "((\<lambda>s. binary64 (s + d)) ^^ n) 0 = of_nat n * d" by simp
  have "of_nat n * d + d = of_nat (Suc n) * d" by (simp add: algebra_simps)
  moreover have "binary64 (of_nat (Suc n) * d) = of_nat (Suc n) * d" using Suc.prems by blast
  ultimately show ?case by (simp only: funpow.simps o_apply ih)
qed


lemma increment_init:
  "increment (ClosedLoop_init period Kp Ki ref meas) =
     binary64 (binary64 (Ki * binary64 (ref - meas)) * binary64 (period / 1000))"
  by (simp add: increment_def ClosedLoop_init_def)

lemma increment_exact:
  assumes "binary64 (ref - meas) = ref - meas"
    and "binary64 (Ki * (ref - meas)) = Ki * (ref - meas)"
    and "binary64 (Ki * (ref - meas) * binary64 (period / 1000)) = Ki * (ref - meas) * binary64 (period / 1000)"
  shows "increment (ClosedLoop_init period Kp Ki ref meas) = Ki * (ref - meas) * binary64 (period / 1000)"
  by (simp only: increment_init assms)

lemma pid_rounded_arithmetic:
  "fst (ClosedLoop_update (ClosedLoop_run (ClosedLoop_init period Kp 0 ref meas) calls)) =
     binary64 (pid_Kp (ClosedLoop_run (ClosedLoop_init period Kp 0 ref meas) calls) *
               binary64 (pid_ref (ClosedLoop_run (ClosedLoop_init period Kp 0 ref meas) calls) -
                         pid_meas (ClosedLoop_run (ClosedLoop_init period Kp 0 ref meas) calls))) \<and>
   pid_period (ClosedLoop_init period Kp Ki ref meas) = binary64 (period / 1000) \<and>
   pid_integral (ClosedLoop_updates n (ClosedLoop_init period Kp Ki ref meas)) =
     ((\<lambda>s. binary64 (s + binary64 (binary64 (Ki * binary64 (ref - meas)) * binary64 (period / 1000)))) ^^ n) 0 \<and>
   (binary64 (ref - meas) = ref - meas \<and>
    binary64 (Ki * (ref - meas)) = Ki * (ref - meas) \<and>
    binary64 (Ki * (ref - meas) * binary64 (period / 1000)) = Ki * (ref - meas) * binary64 (period / 1000) \<and>
    (\<forall>k<n. binary64 (of_nat (Suc k) * (Ki * (ref - meas) * binary64 (period / 1000)))
              = of_nat (Suc k) * (Ki * (ref - meas) * binary64 (period / 1000))) \<longrightarrow>
      pid_integral (ClosedLoop_updates n (ClosedLoop_init period Kp Ki ref meas)) =
        Ki * (ref - meas) * binary64 (period / 1000) * of_nat n)"
proof (intro conjI impI)
  let ?c0 = "ClosedLoop_init period Kp 0 ref meas"
  have z: "pid_Ki ?c0 = 0" "pid_integral ?c0 = 0" by (simp_all add: ClosedLoop_init_def)
  have "pid_Ki (ClosedLoop_run ?c0 calls) = 0 \<and> pid_integral (ClosedLoop_run ?c0 calls) = 0"
    by (rule Ki_zero_run [OF z])
  then show "fst (ClosedLoop_update (ClosedLoop_run ?c0 calls)) =
     binary64 (pid_Kp (ClosedLoop_run ?c0 calls) *
               binary64 (pid_ref (ClosedLoop_run ?c0 calls) - pid_meas (ClosedLoop_run ?c0 calls)))"
    using Ki_zero_output [of "ClosedLoop_run ?c0 calls"] by blast
next
  show "pid_period (ClosedLoop_init period Kp Ki ref meas) = binary64 (period / 1000)"
    by (simp add: ClosedLoop_init_def)
next
  show "pid_integral (ClosedLoop_updates n (ClosedLoop_init period Kp Ki ref meas)) =
     ((\<lambda>s. binary64 (s + binary64 (binary64 (Ki * binary64 (ref - meas)) * binary64 (period / 1000)))) ^^ n) 0"
    using integral_updates [of n "ClosedLoop_init period Kp Ki ref meas"]
    by (simp only: increment_init) (simp add: ClosedLoop_init_def)
next
  let ?d = "Ki * (ref - meas) * binary64 (period / 1000)"
  assume a: "binary64 (ref - meas) = ref - meas \<and>
    binary64 (Ki * (ref - meas)) = Ki * (ref - meas) \<and>
    binary64 ?d = ?d \<and>
    (\<forall>k<n. binary64 (of_nat (Suc k) * ?d) = of_nat (Suc k) * ?d)"
  have inc: "increment (ClosedLoop_init period Kp Ki ref meas) = ?d"
    using a by (intro increment_exact) simp_all
  have "pid_integral (ClosedLoop_updates n (ClosedLoop_init period Kp Ki ref meas)) =
          ((\<lambda>s. binary64 (s + ?d)) ^^ n) 0"
    using integral_updates [of n "ClosedLoop_init period Kp Ki ref meas"]
    by (simp only: inc) (simp add: ClosedLoop_init_def)
  also have "\<dots> = of_nat n * ?d"
    using a by (intro exact_accumulation) blast
  finally show "pid_integral (ClosedLoop_updates n (ClosedLoop_init period Kp Ki ref meas)) =
        ?d * of_nat n"
    by (simp add: mult.commute)
qed


text \<open>
  C8, amended: as long as the period and every operation of the \<^verbatim>\<open>update()\<close> calls made
  stay in the range of the floats (no overflow, no underflow): for a PID controller
  constructed with integral gain \<open>Ki = 0\<close>, a call of \<^verbatim>\<open>update()\<close>, whatever
  \<^verbatim>\<open>update\<close>, \<^verbatim>\<open>set_Kp\<close> and \<^verbatim>\<open>setpoint\<close> calls came before, returns exactly the
  float product \<open>Kp*(reference - measurement)\<close>. For a controller with constant error
  \<open>e\<close> (any \<open>Kp\<close>), the period is the constructor's sample period divided by 1000 as a
  float, and after \<open>n\<close> calls of \<^verbatim>\<open>update()\<close> the accumulated integral is the result of
  adding the float product \<open>Ki*e*period\<close> to 0 in \<open>n\<close> rounded float additions; it is
  exactly \<open>Ki*e*period*n\<close> when the difference, the two products and every partial sum
  \<open>k*Ki*e*period\<close> up to \<open>k = n\<close> are floats, so that no operation rounds.
\<close>

theorem pid_output_and_integral:
  "(in_range (period / 1000) \<and>
    run_in_range (ClosedLoop_init period Kp 0 ref meas) (calls @ [Call_update]) \<longrightarrow>
      fst (ClosedLoop_update (ClosedLoop_run (ClosedLoop_init period Kp 0 ref meas) calls)) =
        binary64 (pid_Kp (ClosedLoop_run (ClosedLoop_init period Kp 0 ref meas) calls) *
                  binary64 (pid_ref (ClosedLoop_run (ClosedLoop_init period Kp 0 ref meas) calls) -
                            pid_meas (ClosedLoop_run (ClosedLoop_init period Kp 0 ref meas) calls)))) \<and>
   pid_period (ClosedLoop_init period Kp Ki ref meas) = binary64 (period / 1000) \<and>
   (in_range (period / 1000) \<and> updates_in_range n (ClosedLoop_init period Kp Ki ref meas) \<longrightarrow>
      pid_integral (ClosedLoop_updates n (ClosedLoop_init period Kp Ki ref meas)) =
        ((\<lambda>s. binary64 (s + binary64 (binary64 (Ki * binary64 (ref - meas)) * binary64 (period / 1000))))
           ^^ n) 0) \<and>
   (in_range (period / 1000) \<and> updates_in_range n (ClosedLoop_init period Kp Ki ref meas) \<and>
    binary64 (ref - meas) = ref - meas \<and>
    binary64 (Ki * (ref - meas)) = Ki * (ref - meas) \<and>
    binary64 (Ki * (ref - meas) * binary64 (period / 1000)) = Ki * (ref - meas) * binary64 (period / 1000) \<and>
    (\<forall>k<n. binary64 (of_nat (Suc k) * (Ki * (ref - meas) * binary64 (period / 1000)))
              = of_nat (Suc k) * (Ki * (ref - meas) * binary64 (period / 1000))) \<longrightarrow>
      pid_integral (ClosedLoop_updates n (ClosedLoop_init period Kp Ki ref meas)) =
        Ki * (ref - meas) * binary64 (period / 1000) * of_nat n)"
  using pid_rounded_arithmetic [of period Kp ref meas calls Ki n] by blast

text \<open>
  C8 as stated: with \<open>Kp = 0\<close> and constant error the integral after \<open>n\<close> calls is
  exactly \<open>Ki*e*period*n\<close>. For the sample period of the drive task (5 ms), \<open>Ki = 1\<close> and
  error 1, the integral after 6 calls is the float 0.030000000000000002: the third, fifth
  and sixth additions round. It is neither the exact product of the stored period by 6
  nor that product as Python evaluates it, the float 0.03.
\<close>

theorem pid_integral_product_counterexample:
  "pid_integral (ClosedLoop_updates 6 (ClosedLoop_init 5 0 1 1 0)) = 8646911284551353 / 2 ^ 58 \<and>
   spec_integral (ClosedLoop_init 5 0 1 1 0) 6 = 17293822569102705 / 2 ^ 59 \<and>
   float_product (ClosedLoop_init 5 0 1 1 0) 6 = 8646911284551352 / 2 ^ 58 \<and>
   pid_integral (ClosedLoop_updates 6 (ClosedLoop_init 5 0 1 1 0))
     \<noteq> spec_integral (ClosedLoop_init 5 0 1 1 0) 6 \<and>
   pid_integral (ClosedLoop_updates 6 (ClosedLoop_init 5 0 1 1 0))
     \<noteq> float_product (ClosedLoop_init 5 0 1 1 0) 6"
proof -
  define p :: real where "p = 5764607523034235 / 2 ^ 60"
  define s3 :: real where "s3 = 8646911284551352 / 2 ^ 59"
  define s4 :: real where "s4 = 5764607523034235 / 2 ^ 58"
  define s5 :: real where "s5 = 7205759403792794 / 2 ^ 58"
  define s6 :: real where "s6 = 8646911284551353 / 2 ^ 58"
  have per: "pid_period (ClosedLoop_init 5 0 1 1 0) = p"
    by (simp only: ClosedLoop_init_def ClosedLoop.simps binary64_5ms p_def)
  have bp: "binary64 p = p"
    unfolding p_def by (subst binary64_fine [where k = 60]) (simp_all add: round_half_even_def)
  have inc: "increment (ClosedLoop_init 5 0 1 1 0) = p"
    by (simp add: increment_def per binary64_1 bp) (simp add: ClosedLoop_init_def binary64_1 bp)
  have r1: "binary64 (0 + p) = p" by (simp add: bp)
  have r2: "binary64 (p + p) = 2 * p"
    unfolding p_def by (subst binary64_fine [where k = 59]) (simp_all add: round_half_even_def)
  have r3: "binary64 (2 * p + p) = s3"
    unfolding p_def s3_def by (subst binary64_fine [where k = 59]) (simp_all add: round_half_even_def)
  have r4: "binary64 (s3 + p) = s4"
    unfolding p_def s3_def s4_def
    by (subst binary64_fine [where k = 58]) (simp_all add: round_half_even_def)
  have r5: "binary64 (s4 + p) = s5"
    unfolding p_def s4_def s5_def
    by (subst binary64_fine [where k = 58]) (simp_all add: round_half_even_def)
  have r6: "binary64 (s5 + p) = s6"
    unfolding p_def s5_def s6_def
    by (subst binary64_fine [where k = 58]) (simp_all add: round_half_even_def)
  have six: "(6::nat) = Suc (Suc (Suc (Suc (Suc (Suc 0)))))" by simp
  have "pid_integral (ClosedLoop_updates 6 (ClosedLoop_init 5 0 1 1 0)) =
          ((\<lambda>s. binary64 (s + p)) ^^ 6) 0"
    using integral_updates [of 6 "ClosedLoop_init 5 0 1 1 0"]
    by (simp only: inc) (simp add: ClosedLoop_init_def)
  also have "\<dots> = s6"
    by (simp only: six funpow.simps o_apply id_apply r1 r2 r3 r4 r5 r6)
  finally have integral: "pid_integral (ClosedLoop_updates 6 (ClosedLoop_init 5 0 1 1 0)) = s6" .
  have spec: "spec_integral (ClosedLoop_init 5 0 1 1 0) 6 = 17293822569102705 / 2 ^ 59"
    by (simp add: spec_integral_def per) (simp add: ClosedLoop_init_def p_def)
  have prod: "binary64 (p * 6) = 8646911284551352 / 2 ^ 58"
    unfolding p_def by (subst binary64_fine [where k = 58]) (simp_all add: round_half_even_def)
  have fp: "float_product (ClosedLoop_init 5 0 1 1 0) 6 = 8646911284551352 / 2 ^ 58"
  proof -
    have "float_product (ClosedLoop_init 5 0 1 1 0) 6 =
            binary64 (increment (ClosedLoop_init 5 0 1 1 0) * of_nat 6)"
      by (simp only: float_product_def increment_def)
    then show ?thesis by (simp only: inc) (simp add: prod)
  qed
  show ?thesis
    unfolding integral spec fp by (simp add: s6_def)
qed

lemma binary64_2: "binary64 2 = 2"
  using binary64_of_int [of 2] by simp

lemma binary64_3: "binary64 3 = 3"
  using binary64_of_int [of 3] by simp

lemma binary64_4: "binary64 4 = 4"
  using binary64_of_int [of 4] by simp

lemma binary64_one_half: "binary64 (1 / 2) = 1 / 2"
  using binary64_half [of 1] by simp

lemma binary64_three_halves: "binary64 (3 / 2) = 3 / 2"
  using binary64_half [of 3] by simp

lemmas pid_eval =
  update_in_range_def ClosedLoop_update_def ClosedLoop_set_Kp_def ClosedLoop_setpoint_def
  ClosedLoop_init_def Let_def in_range_def binary64_0 binary64_1 binary64_2 binary64_3 binary64_4
  binary64_one_half binary64_three_halves

theorem pid_output_and_integral_witness:
  "in_range (500 / 1000) \<and>
   run_in_range (ClosedLoop_init 500 (3 / 2) 0 3 1) ([Call_update, Call_set_Kp 2] @ [Call_update]) \<and>
   fst (ClosedLoop_update
         (ClosedLoop_run (ClosedLoop_init 500 (3 / 2) 0 3 1) [Call_update, Call_set_Kp 2])) = 4 \<and>
   updates_in_range 3 (ClosedLoop_init 500 0 1 1 0) \<and>
   binary64 (1 - 0) = 1 - 0 \<and>
   binary64 (1 * (1 - 0)) = 1 * (1 - 0) \<and>
   binary64 (1 * (1 - 0) * binary64 (500 / 1000)) = 1 * (1 - 0) * binary64 (500 / 1000) \<and>
   pid_period (ClosedLoop_init 500 0 1 1 0) = 1 / 2 \<and>
   pid_integral (ClosedLoop_updates 3 (ClosedLoop_init 500 0 1 1 0)) = 1 * (1 - 0) * (1 / 2) * 3"
proof -
  have r: "in_range (500 / 1000)" by (simp add: in_range_def)
  have g1: "run_in_range (ClosedLoop_init 500 (3 / 2) 0 3 1) ([Call_update, Call_set_Kp 2] @ [Call_update])"
    by (simp add: pid_eval)
  have g2: "updates_in_range 3 (ClosedLoop_init 500 0 1 1 0)"
    by (simp add: pid_eval eval_nat_numeral)
  have e1: "binary64 (1 - 0) = 1 - 0" by (simp add: binary64_1)
  have e2: "binary64 (1 * (1 - 0)) = 1 * (1 - 0)" by (simp add: binary64_1)
  have e3: "binary64 (1 * (1 - 0) * binary64 (500 / 1000)) = 1 * (1 - 0) * binary64 (500 / 1000)"
    by (simp add: binary64_idem)
  have e4: "\<forall>k<3. binary64 (of_nat (Suc k) * (1 * (1 - 0) * binary64 (500 / 1000)))
              = of_nat (Suc k) * (1 * (1 - 0) * binary64 (500 / 1000))"
  proof (intro allI impI)
    fix k :: nat
    assume "k < 3"
    then have "\<bar>int (Suc k)\<bar> \<le> 2 ^ 53" by simp
    then have half: "binary64 (real_of_int (int (Suc k)) / 2) = real_of_int (int (Suc k)) / 2"
      by (rule binary64_half)
    have eq: "of_nat (Suc k) * (1 * (1 - 0) * binary64 (500 / 1000)) = real_of_int (int (Suc k)) / 2"
      by (simp add: binary64_one_half)
    show "binary64 (of_nat (Suc k) * (1 * (1 - 0) * binary64 (500 / 1000)))
              = of_nat (Suc k) * (1 * (1 - 0) * binary64 (500 / 1000))"
      by (simp only: eq half)
  qed
  have k: "pid_Kp (ClosedLoop_run (ClosedLoop_init 500 (3 / 2) 0 3 1) [Call_update, Call_set_Kp 2]) = 2"
    "pid_ref (ClosedLoop_run (ClosedLoop_init 500 (3 / 2) 0 3 1) [Call_update, Call_set_Kp 2]) = 3"
    "pid_meas (ClosedLoop_run (ClosedLoop_init 500 (3 / 2) 0 3 1) [Call_update, Call_set_Kp 2]) = 1"
    by (simp_all add: ClosedLoop_update_def ClosedLoop_set_Kp_def ClosedLoop_init_def Let_def)
  from pid_output_and_integral
    [where period = 500 and Kp = "3 / 2" and ref = 3 and meas = 1
       and calls = "[Call_update, Call_set_Kp 2]"] r g1
  have "fst (ClosedLoop_update
         (ClosedLoop_run (ClosedLoop_init 500 (3 / 2) 0 3 1) [Call_update, Call_set_Kp 2]))
     = binary64 (2 * binary64 (3 - 1))"
    by (simp only: k)
  then have first: "fst (ClosedLoop_update
         (ClosedLoop_run (ClosedLoop_init 500 (3 / 2) 0 3 1) [Call_update, Call_set_Kp 2])) = 4"
    by (simp add: binary64_2 binary64_4)
  from pid_output_and_integral
    [where period = 500 and Kp = 0 and Ki = 1 and ref = 1 and meas = 0 and n = 3 and calls = "[]"]
    r g2 e1 e2 e3 e4
  have second: "pid_period (ClosedLoop_init 500 0 1 1 0) = binary64 (500 / 1000)"
    "pid_integral (ClosedLoop_updates 3 (ClosedLoop_init 500 0 1 1 0)) =
        1 * (1 - 0) * binary64 (500 / 1000) * of_nat 3"
    by blast+
  show ?thesis
    using r g1 g2 first second e1 e2 e3 by (simp add: binary64_one_half)
qed

subsection \<open>Facts about the orientation driver\<close>

lemma pack_unpack_22B:
  assumes "length data = 22"
  shows "unpack_22B data = Inr (map uint data) \<and> pack_22B (map uint data) = Inr data"
proof -
  have rng: "list_all (\<lambda>v. 0 \<le> v \<and> v \<le> 255) (map uint data)"
  proof -
    have "uint b \<le> 255" for b :: byte
      using uint_bounded [of b] by simp
    then show ?thesis by (simp add: list_all_iff)
  qed
  have inv: "map word_of_int (map uint data) = data"
    by (simp add: map_idI)
  show ?thesis
    using assms rng inv by (simp add: unpack_22B_def pack_22B_def)
qed

lemma length_readfrom_mem: "length (readfrom_mem a r n bus) = n"
  by (simp add: readfrom_mem_def)

lemma regs_write_back:
  "regs (writeto_mem a r (readfrom_mem a r n bus) bus) = regs bus"
  by (auto simp: writeto_mem_def readfrom_mem_def fun_eq_iff)

lemma readfrom_mem_regs:
  "regs bus' = regs bus \<Longrightarrow> readfrom_mem a r n bus' = readfrom_mem a r n bus"
  by (simp add: readfrom_mem_def)


lemma write_back_read_eq:
  "write_back_read self bus =
     (Done (), writeto_mem (i2c_addr self) 0x55 (readfrom_mem (i2c_addr self) 0x55 22 bus) bus)"
  using pack_unpack_22B [of "readfrom_mem (i2c_addr self) 0x55 22 bus"]
  by (simp add: write_back_read_def read_calibration_coefficients_def
      write_calibration_coefficients_def length_readfrom_mem)

text \<open>
  C9. Writing back the calibration coefficients that were just read succeeds, makes one
  write transaction of exactly the 22 bytes read at register 0x55, and leaves every
  register as it was, so that the next 22-byte readback and the next
  \<open>read_calibration_coefficients\<close> return what they returned before. On any block of
  22 bytes, packing with \<^verbatim>\<open><22B\<close> what \<^verbatim>\<open><22B\<close> unpacked gives the block back.
\<close>

theorem calibration_write_back_round_trip:
  "fst (write_back_read self bus) = Done () \<and>
   writes (snd (write_back_read self bus)) =
     writes bus @ [(i2c_addr self, 0x55, readfrom_mem (i2c_addr self) 0x55 22 bus)] \<and>
   regs (snd (write_back_read self bus)) = regs bus \<and>
   readfrom_mem (i2c_addr self) 0x55 22 (snd (write_back_read self bus)) =
     readfrom_mem (i2c_addr self) 0x55 22 bus \<and>
   read_calibration_coefficients self (snd (write_back_read self bus)) =
     read_calibration_coefficients self bus \<and>
   (length data = 22 \<longrightarrow>
      unpack_22B data = Inr (map uint data) \<and> pack_22B (map uint data) = Inr data)"
proof -
  let ?a = "i2c_addr self"
  let ?bus' = "snd (write_back_read self bus)"
  have r: "regs ?bus' = regs bus"
    by (simp add: write_back_read_eq regs_write_back)
  have rd: "readfrom_mem ?a 0x55 22 ?bus' = readfrom_mem ?a 0x55 22 bus"
    by (rule readfrom_mem_regs [OF r])
  have "fst (write_back_read self bus) = Done ()"
    by (simp add: write_back_read_eq)
  moreover have "writes ?bus' = writes bus @ [(?a, 0x55, readfrom_mem ?a 0x55 22 bus)]"
    by (simp add: write_back_read_eq writeto_mem_def)
  moreover have "read_calibration_coefficients self ?bus' = read_calibration_coefficients self bus"
    by (simp only: read_calibration_coefficients_def rd)
  moreover have "length data = 22 \<longrightarrow>
      unpack_22B data = Inr (map uint data) \<and> pack_22B (map uint data) = Inr data"
    using pack_unpack_22B [of data] by blast
  ultimately show ?thesis using r rd by blast
qed

theorem calibration_write_back_round_trip_witness:
  "length [1, 2, 3, 4, 5, 6, 7, 8, 9, 10, 11, 12, 13, 14, 15, 16, 17, 18, 19, 20, 254, 255 :: byte] = 22 \<and>
   unpack_22B [1, 2, 3, 4, 5, 6, 7, 8, 9, 10, 11, 12, 13, 14, 15, 16, 17, 18, 19, 20, 254, 255]
     = Inr [1, 2, 3, 4, 5, 6, 7, 8, 9, 10, 11, 12, 13, 14, 15, 16, 17, 18, 19, 20, 254, 255] \<and>
   pack_22B [1, 2, 3, 4, 5, 6, 7, 8, 9, 10, 11, 12, 13, 14, 15, 16, 17, 18, 19, 20, 254, 255]
     = Inr [1, 2, 3, 4, 5, 6, 7, 8, 9, 10, 11, 12, 13, 14, 15, 16, 17, 18, 19, 20, 254, 255]"
  using calibration_write_back_round_trip
    [where data = "[1, 2, 3, 4, 5, 6, 7, 8, 9, 10, 11, 12, 13, 14, 15, 16, 17, 18, 19, 20, 254, 255]"]
  by simp

lemma self_init:
  "fst (BNO055_init bus0) =
        \<lparr> i2c_addr = 0x28,
          AXIS_REMAP_P0 = 0x21,
          AXIS_REMAP_P1 = 0x24,
          AXIS_REMAP_P2 = 0x24,
          AXIS_REMAP_P3 = 0x21,
          AXIS_REMAP_P4 = 0x24,
          AXIS_REMAP_P5 = 0x21,
          AXIS_REMAP_P6 = 0x21,
          AXIS_REMAP_P7 = 0x24,
          AXIS_REMAP_SIGN_P0 = 0x04,
          AXIS_REMAP_SIGN_P1 = 0x00,
          AXIS_REMAP_SIGN_P2 = 0x06,
          AXIS_REMAP_SIGN_P3 = 0x02,
          AXIS_REMAP_SIGN_P4 = 0x03,
          AXIS_REMAP_SIGN_P5 = 0x01,
          AXIS_REMAP_SIGN_P6 = 0x07,
          AXIS_REMAP_SIGN_P7 = 0x05 \<rparr>"
  by (simp add: BNO055_init_def Let_def)

lemmas remap_unfold =
  remap_axes_def bytes_def Let_def AXIS_REMAP_def AXIS_REMAP_SIGN_def self_init

lemma remap_axes_valid:
  assumes "0 \<le> p" "p \<le> 7"
  shows "remap_axes p (fst (BNO055_init bus0)) bus =
     (Done (),
      writeto_mem 0x28 0x42 [word_of_int (AXIS_REMAP_SIGN (fst (BNO055_init bus0)) ! nat p)]
        (writeto_mem 0x28 0x41 [word_of_int (AXIS_REMAP (fst (BNO055_init bus0)) ! nat p)] bus))"
proof -
  from assms have "p \<in> {0, 1, 2, 3, 4, 5, 6, 7}" by simp arith
  then show ?thesis
    by (auto simp: remap_unfold)
qed

lemma remap_axes_invalid:
  assumes "p < 0 \<or> 7 < p"
  shows "remap_axes p self bus = (Raise (ValueError ''Invalid placement value''), bus)"
  using assms by (auto simp: remap_axes_def)

text \<open>
  C10. With the table the constructor stores, \<open>remap_axes p\<close> for a placement code
  \<open>p\<close> from 0 to 7 returns normally after exactly two write transactions: the one byte
  \<open>AXIS_REMAP_Pp\<close> to register 0x41, then the one byte \<open>AXIS_REMAP_SIGN_Pp\<close> to
  register 0x42, and the two registers then hold these bytes. For any other integer it
  raises \<^verbatim>\<open>ValueError\<close> and leaves the bus as it was: no write transaction, no register
  changed.
\<close>

theorem remap_axes_table_or_error:
  "(0 \<le> p \<and> p \<le> 7 \<longrightarrow>
      fst (remap_axes p (fst (BNO055_init bus0)) bus) = Done () \<and>
      writes (snd (remap_axes p (fst (BNO055_init bus0)) bus)) =
        writes bus @
          [(0x28, 0x41, [word_of_int (AXIS_REMAP (fst (BNO055_init bus0)) ! nat p)]),
           (0x28, 0x42, [word_of_int (AXIS_REMAP_SIGN (fst (BNO055_init bus0)) ! nat p)])] \<and>
      regs (snd (remap_axes p (fst (BNO055_init bus0)) bus)) 0x41 =
        word_of_int (AXIS_REMAP (fst (BNO055_init bus0)) ! nat p) \<and>
      regs (snd (remap_axes p (fst (BNO055_init bus0)) bus)) 0x42 =
        word_of_int (AXIS_REMAP_SIGN (fst (BNO055_init bus0)) ! nat p)) \<and>
   (p < 0 \<or> 7 < p \<longrightarrow>
      remap_axes p (fst (BNO055_init bus0)) bus =
        (Raise (ValueError ''Invalid placement value''), bus))"
proof (intro conjI impI)
  assume "p < 0 \<or> 7 < p"
  then show "remap_axes p (fst (BNO055_init bus0)) bus =
        (Raise (ValueError ''Invalid placement value''), bus)"
    by (rule remap_axes_invalid)
next
  assume a: "0 \<le> p \<and> p \<le> 7"
  then have v: "remap_axes p (fst (BNO055_init bus0)) bus =
     (Done (),
      writeto_mem 0x28 0x42 [word_of_int (AXIS_REMAP_SIGN (fst (BNO055_init bus0)) ! nat p)]
        (writeto_mem 0x28 0x41 [word_of_int (AXIS_REMAP (fst (BNO055_init bus0)) ! nat p)] bus))"
    using remap_axes_valid [of p bus0 bus] by simp
  show "fst (remap_axes p (fst (BNO055_init bus0)) bus) = Done ()"
    by (simp add: v)
  show "writes (snd (remap_axes p (fst (BNO055_init bus0)) bus)) =
        writes bus @
          [(0x28, 0x41, [word_of_int (AXIS_REMAP (fst (BNO055_init bus0)) ! nat p)]),
           (0x28, 0x42, [word_of_int (AXIS_REMAP_SIGN (fst (BNO055_init bus0)) ! nat p)])]"
    by (simp add: v writeto_mem_def)
  show "regs (snd (remap_axes p (fst (BNO055_init bus0)) bus)) 0x41 =
        word_of_int (AXIS_REMAP (fst (BNO055_init bus0)) ! nat p)"
    by (simp add: v writeto_mem_def)
  show "regs (snd (remap_axes p (fst (BNO055_init bus0)) bus)) 0x42 =
        word_of_int (AXIS_REMAP_SIGN (fst (BNO055_init bus0)) ! nat p)"
    by (simp add: v writeto_mem_def)
qed

theorem remap_axes_table_or_error_witness:
  "(0::int) \<le> 3 \<and> (3::int) \<le> 7 \<and>
   remap_axes 3 (fst (BNO055_init \<lparr>regs = (\<lambda>r. 0), writes = []\<rparr>))
       (snd (BNO055_init \<lparr>regs = (\<lambda>r. 0), writes = []\<rparr>)) =
     (Done (),
      \<lparr>regs = (\<lambda>r. if r = 0x42 then 0x02 else if r = 0x41 then 0x21 else 0),
       writes = [(0x28, 0x3D, [0x00]), (0x28, 0x41, [0x21]), (0x28, 0x42, [0x02])]\<rparr>) \<and>
   ((9::int) < 0 \<or> (7::int) < 9) \<and>
   remap_axes 9 (fst (BNO055_init \<lparr>regs = (\<lambda>r. 0), writes = []\<rparr>))
       (snd (BNO055_init \<lparr>regs = (\<lambda>r. 0), writes = []\<rparr>)) =
     (Raise (ValueError ''Invalid placement value''),
      snd (BNO055_init \<lparr>regs = (\<lambda>r. 0), writes = []\<rparr>))"
  using remap_axes_table_or_error
      [where p = 3 and ?bus0.0 = "\<lparr>regs = (\<lambda>r. 0), writes = []\<rparr>"
         and bus = "snd (BNO055_init \<lparr>regs = (\<lambda>r. 0), writes = []\<rparr>)"]
    remap_axes_table_or_error
      [where p = 9 and ?bus0.0 = "\<lparr>regs = (\<lambda>r. 0), writes = []\<rparr>"
         and bus = "snd (BNO055_init \<lparr>regs = (\<lambda>r. 0), writes = []\<rparr>)"]
  by (auto simp: remap_unfold BNO055_init_def set_operation_mode_def writeto_mem_def fun_eq_iff)

end
